theory Spec2Isabelle
  imports Main
begin

section \<open>Python strings and lists\<close>

text \<open>
  The linter works on Python \<open>str\<close> values and on lists that are extended in place.
  A \<open>str\<close> is modelled as a \<^typ>\<open>string\<close>; the string methods the code calls are written
  out here with the results Python gives, including the \<open>-1\<close> of \<open>find\<close> and \<open>rfind\<close> and the
  meaning of a negative slice bound.
\<close>

text \<open>\<open>s.find(c)\<close> for a one-character \<open>c\<close>: the lowest index of \<open>c\<close>, or \<open>-1\<close>.\<close>

fun str_find :: "char \<Rightarrow> string \<Rightarrow> int" where
  "str_find c [] = - 1"
| "str_find c (x # xs) =
     (if x = c then 0 else (let r = str_find c xs in if r < 0 then - 1 else r + 1))"

text \<open>\<open>s.rfind(c)\<close> for a one-character \<open>c\<close>: the highest index of \<open>c\<close>, or \<open>-1\<close>.\<close>

fun str_rfind :: "char \<Rightarrow> string \<Rightarrow> int" where
  "str_rfind c [] = - 1"
| "str_rfind c (x # xs) =
     (let r = str_rfind c xs in if r < 0 then (if x = c then 0 else - 1) else r + 1)"

text \<open>
  A slice bound \<open>i\<close> on a sequence of length \<open>n\<close>: a negative bound counts from the end
  and stops at \<open>0\<close> (\<^const>\<open>nat\<close> of a negative number is \<open>0\<close>), a bound beyond the end
  stops at \<open>n\<close>.
\<close>

definition slice_index :: "nat \<Rightarrow> int \<Rightarrow> nat" where
  "slice_index n i = (if i < 0 then nat (int n + i) else min n (nat i))"

text \<open>\<open>xs[lo:hi]\<close>; empty when the upper bound does not lie after the lower one.\<close>

definition py_slice :: "'a list \<Rightarrow> int \<Rightarrow> int \<Rightarrow> 'a list" where
  "py_slice xs lo hi =
     (let n = length xs; l = slice_index n lo; h = slice_index n hi
      in take (h - l) (drop l xs))"

text \<open>\<open>xs[lo:]\<close>.\<close>

definition py_slice_from :: "'a list \<Rightarrow> int \<Rightarrow> 'a list" where
  "py_slice_from xs lo = drop (slice_index (length xs) lo) xs"

text \<open>\<open>s.replace(a, b)\<close> for one-character \<open>a\<close> and \<open>b\<close>.\<close>

definition str_replace :: "char \<Rightarrow> char \<Rightarrow> string \<Rightarrow> string" where
  "str_replace a b s = map (\<lambda>c. if c = a then b else c) s"

text \<open>\<open>s.startswith(p)\<close>.\<close>

fun startswith :: "string \<Rightarrow> string \<Rightarrow> bool" where
  "startswith s [] = True"
| "startswith [] (p # ps) = False"
| "startswith (c # cs) (p # ps) = (c = p \<and> startswith cs ps)"

text \<open>\<open>p in s\<close> for two strings: \<open>p\<close> occurs as a contiguous part of \<open>s\<close>.\<close>

fun str_contains :: "string \<Rightarrow> string \<Rightarrow> bool" where
  "str_contains [] p = (p = [])"
| "str_contains (c # cs) p = (startswith (c # cs) p \<or> str_contains cs p)"

text \<open>\<open>s.split(sep)\<close> for a one-character separator: always at least one part.\<close>

fun str_split :: "char \<Rightarrow> string \<Rightarrow> string list" where
  "str_split sep [] = [[]]"
| "str_split sep (c # cs) =
     (if c = sep then [] # str_split sep cs
      else (case str_split sep cs of
              [] \<Rightarrow> [[c]]
            | part # parts \<Rightarrow> (c # part) # parts))"

text \<open>
  \<open>s.lower()\<close> on the ASCII letters; other characters are left as they are (Python also
  lowers letters outside ASCII, which the byte strings of this model do not hold).
\<close>

definition lower_char :: "char \<Rightarrow> char" where
  "lower_char c =
     (let n = (of_char c :: nat) in if 65 \<le> n \<and> n \<le> 90 then char_of (n + 32) else c)"

definition str_lower :: "string \<Rightarrow> string" where
  "str_lower s = map lower_char s"

text \<open>\<open>if x not in xs: xs.append(x)\<close>, the way every identifier list of the code grows.\<close>

definition append_unique :: "'a \<Rightarrow> 'a list \<Rightarrow> 'a list" where
  "append_unique x xs = (if x \<in> set xs then xs else xs @ [x])"

text \<open>
  The exceptions a run can end with. None of the code catches an exception, so a raise
  anywhere ends the run.
\<close>

datatype py_error = KeyError | TypeError | AttributeError | IndexError

text \<open>A \<open>for\<close> loop whose body may raise: the first raise leaves the loop.\<close>

fun for_each :: "('a \<Rightarrow> 's \<Rightarrow> py_error + 's) \<Rightarrow> 'a list \<Rightarrow> 's \<Rightarrow> py_error + 's" where
  "for_each body [] s = Inr s"
| "for_each body (x # xs) s =
     (case body x s of Inl e \<Rightarrow> Inl e | Inr s' \<Rightarrow> for_each body xs s')"

section \<open>helper.py: the Resource Identifier Parser\<close>

text \<open>
  \<^verbatim>\<open>
  def clean_name(raw_value):
      slash_index = raw_value.find("/") + 1
      last_quote_index = raw_value.rfind("'")
      return raw_value[slash_index:last_quote_index]
  \<close>
\<close>

definition clean_name :: "string \<Rightarrow> string" where
  "clean_name raw_value =
     (let slash_index = str_find CHR ''/'' raw_value + 1;
          last_quote_index = str_rfind (CHR 0x27) raw_value
      in py_slice raw_value slash_index last_quote_index)"

text \<open>
  \<^verbatim>\<open>
  def clean_type(raw_value):
      last_slash_index = raw_value.rfind("/") + 1
      return raw_value[last_slash_index:]
  \<close>
\<close>

definition clean_type :: "string \<Rightarrow> string" where
  "clean_type raw_value =
     (let last_slash_index = str_rfind CHR ''/'' raw_value + 1
      in py_slice_from raw_value last_slash_index)"

section \<open>The parsed template\<close>

text \<open>
  The template reaches the linter as the value \<open>json.load\<close> returns. The model keeps the
  shape the specification gives it: a resource has \<open>name\<close>, \<open>type\<close> and \<open>properties\<close>, and
  may have \<open>dependsOn\<close>; every key the code looks up below \<open>properties\<close> may be absent,
  which is \<^const>\<open>None\<close> here, so that each subscript of the code can raise \<open>KeyError\<close>
  and each \<open>.get\<close> can fall back to its default.
\<close>

text \<open>One entry of an activity's \<open>dependsOn\<close>.\<close>

record dependency =
  dep_activity :: string
  dependencyConditions :: "string list"

record policy =
  timeout :: "string option"

text \<open>The \<open>typeProperties\<close> of an activity, with the keys the rules read.\<close>

record activity_type_properties =
  isSequential :: "bool option"
  batchCount :: "int option"
  dataIntegrationUnits :: "int option"

record activity =
  a_name :: "string option"
  a_type :: "string option"
  a_description :: "string option"
  a_dependsOn :: "dependency list option"
  a_policy :: "policy option"
  a_typeProperties :: "activity_type_properties option"

record folder =
  fld_name :: "string option"

text \<open>
  \<open>properties\<close> of a top-level resource. \<open>props_type\<close> is its key \<open>type\<close> (read for linked
  services). \<open>typeProperties\<close> lists, in the order of the dict, each property name with
  the text \<open>str(prop_value)\<close> of its value: the only use the code makes of the value.
  Of \<open>annotations\<close> only the length is read.
\<close>

record properties =
  description :: "string option"
  folder :: "folder option"
  annotations :: "string list option"
  activities :: "activity list option"
  props_type :: "string option"
  typeProperties :: "(string \<times> string) list option"

record resource =
  r_name :: string
  r_type :: string
  r_properties :: properties
  r_dependsOn :: "string list option"

record arm_template =
  resources :: "resource list"

section \<open>helper.py: the orphan set\<close>

text \<open>\<open>resource_type + "|" + resource_name\<close>, with both parts cleaned.\<close>

definition complete_resource :: "resource \<Rightarrow> string" where
  "complete_resource resource =
     (let resource_name = clean_name (r_name resource);
          resource_type = clean_type (r_type resource)
      in resource_type @ ''|'' @ resource_name)"

text \<open>\<open>clean_name(dependant).replace('/', '|')\<close>.\<close>

definition complete_dependant :: "string \<Rightarrow> string" where
  "complete_dependant dependant =
     (let dependant_name = clean_name dependant
      in str_replace CHR ''/'' CHR ''|'' dependant_name)"

text \<open>
  The body of the second loop of \<open>get_resource_dependants\<close>: a \<open>dependsOn\<close> of length one
  is read at index \<open>0\<close> (through \<open>str\<close>, the identity on a string), any other is iterated.
\<close>

definition add_dependants :: "resource \<Rightarrow> string list \<Rightarrow> string list" where
  "add_dependants resource dependants_list =
     (case r_dependsOn resource of
        None \<Rightarrow> dependants_list
      | Some ds \<Rightarrow>
          if length ds = 1
          then append_unique (complete_dependant (ds ! 0)) dependants_list
          else fold (\<lambda>dependant acc. append_unique (complete_dependant dependant) acc)
                 ds dependants_list)"

text \<open>The body of the third loop, over the triggers.\<close>

definition add_trigger :: "resource \<Rightarrow> string list \<Rightarrow> string list" where
  "add_trigger resource dependants_list =
     (case r_dependsOn resource of
        None \<Rightarrow> dependants_list
      | Some ds \<Rightarrow>
          if length ds \<ge> 1
          then append_unique (complete_resource resource) dependants_list
          else dependants_list)"

definition get_resource_dependants :: "arm_template \<Rightarrow> resource list \<Rightarrow> string list" where
  "get_resource_dependants adf triggers =
     (let resources_list =
            fold (\<lambda>resource acc. append_unique (complete_resource resource) acc)
              (resources adf) [];
          dependants_list = fold add_dependants (resources adf) [];
          dependants_list = fold add_trigger triggers dependants_list
      in filter (\<lambda>res. res \<notin> set dependants_list) resources_list)"

section \<open>adf_linter.py: the checker and its tables\<close>

datatype severity = Low | Medium | High

text \<open>A row of \<open>verbose_detail_table\<close>: one Finding.\<close>

record finding =
  Component :: string
  Name :: string
  CheckDetail :: string
  Severity :: severity

text \<open>A row of \<open>summary_table\<close>: the result of one rule.\<close>

record summary_row =
  IssueCount :: nat
  SummaryCheckDetail :: string
  SummarySeverity :: severity

text \<open>
  The fields of \<open>ADFLintChecker\<close>. \<open>verbose\<close> is the integer of the command line option
  (\<open>click.INT\<close>, default \<open>1\<close>); \<open>if self.verbose\<close> holds when it is not \<open>0\<close>.
\<close>

record checker =
  check_number :: nat
  summary_table :: "summary_row list"
  verbose_detail_table :: "finding list"
  verbose :: int
  ignore_assertion :: bool

text \<open>\<open>ADFLintChecker.__init__\<close>.\<close>

definition ADFLintChecker :: "int \<Rightarrow> bool \<Rightarrow> checker" where
  "ADFLintChecker v ignore =
     \<lparr>check_number = 0, summary_table = [], verbose_detail_table = [],
      verbose = v, ignore_assertion = ignore\<rparr>"

text \<open>
  The head of every rule: \<open>self.check_number += 1\<close> and \<open>check_counter = 0\<close>. A rule's
  loop runs on the pair of its local \<open>check_counter\<close> and \<open>self\<close>. Printing changes
  nothing the linter reads again and is left out.
\<close>

definition start_check :: "checker \<Rightarrow> nat \<times> checker" where
  "start_check self = (0, self\<lparr>check_number := check_number self + 1\<rparr>)"

text \<open>
  \<^verbatim>\<open>
  check_counter += 1
  if self.verbose:
      self.verbose_detail_table.append({...})
  \<close>
\<close>

definition count_issue :: "finding \<Rightarrow> nat \<times> checker \<Rightarrow> nat \<times> checker" where
  "count_issue f cs =
     (case cs of (check_counter, self) \<Rightarrow>
        (check_counter + 1,
         if verbose self \<noteq> 0
         then self\<lparr>verbose_detail_table := verbose_detail_table self @ [f]\<rparr>
         else self))"

text \<open>
  The same block where building the row may raise: the row is built only under
  \<open>if self.verbose\<close>.
\<close>

definition record_issue :: "py_error + finding \<Rightarrow> nat \<times> checker \<Rightarrow> py_error + nat \<times> checker" where
  "record_issue row cs =
     (case cs of (check_counter, self) \<Rightarrow>
        if verbose self \<noteq> 0
        then (case row of
                Inl e \<Rightarrow> Inl e
              | Inr f \<Rightarrow>
                  Inr (check_counter + 1,
                       self\<lparr>verbose_detail_table := verbose_detail_table self @ [f]\<rparr>))
        else Inr (check_counter + 1, self))"

text \<open>The tail of every rule: \<open>self.summary_table.append({...})\<close>.\<close>

definition finish_check :: "string \<Rightarrow> severity \<Rightarrow> nat \<times> checker \<Rightarrow> checker" where
  "finish_check check_detail sev cs =
     (case cs of (check_counter, self) \<Rightarrow>
        self\<lparr>summary_table := summary_table self @
          [\<lparr>IssueCount = check_counter, SummaryCheckDetail = check_detail,
            SummarySeverity = sev\<rparr>]\<rparr>)"

text \<open>\<open>not value\<close> for an optional string read with \<open>.get(key, '')\<close>.\<close>

definition not_str :: "string option \<Rightarrow> bool" where
  "not_str v = (case v of None \<Rightarrow> True | Some s \<Rightarrow> s = [])"

text \<open>\<open>parts[i]\<close>.\<close>

definition nth_part :: "string list \<Rightarrow> nat \<Rightarrow> py_error + string" where
  "nth_part parts i = (if i < length parts then Inr (parts ! i) else Inl IndexError)"

subsection \<open>Rules over the orphan set\<close>

text \<open>
  The four rules over \<open>redundant_resources\<close> differ in their texts and in the filter of
  the list comprehension only:
  \<^verbatim>\<open>
  for redundant_resource in [r for r in redundant_resources if ...]:
      parts = redundant_resource.split('|')
      check_counter += 1
      if self.verbose:
          self.verbose_detail_table.append({"Component": ..., "Name": parts[1], ...})
  \<close>
\<close>

definition check_orphans ::
  "string \<Rightarrow> severity \<Rightarrow> string \<Rightarrow> string \<Rightarrow> (string \<Rightarrow> bool) \<Rightarrow> string list \<Rightarrow> checker
     \<Rightarrow> py_error + checker" where
  "check_orphans check_detail sev component finding_detail selected redundant_resources self =
     (case for_each
             (\<lambda>redundant_resource cs.
                let parts = str_split CHR ''|'' redundant_resource
                in record_issue
                     (case nth_part parts 1 of
                        Inl e \<Rightarrow> Inl e
                      | Inr n \<Rightarrow>
                          Inr \<lparr>Component = component, Name = n,
                               CheckDetail = finding_detail, Severity = sev\<rparr>)
                     cs)
             (filter selected redundant_resources) (start_check self) of
        Inl e \<Rightarrow> Inl e
      | Inr cs \<Rightarrow> Inr (finish_check check_detail sev cs))"

definition check_master_pipeline_without_triggers :: "string list \<Rightarrow> checker \<Rightarrow> py_error + checker" where
  "check_master_pipeline_without_triggers redundant_resources =
     check_orphans
       ''Master Pipeline(s) without any triggers attached. Directly or indirectly.''
       Medium ''Pipeline'' ''Does not have any triggers attached.''
       (\<lambda>r. startswith r ''pipelines'' \<and> str_contains r ''master'')
       redundant_resources"

definition check_orphaned_linked_services :: "string list \<Rightarrow> checker \<Rightarrow> py_error + checker" where
  "check_orphaned_linked_services redundant_resources =
     check_orphans ''Linked Service(s) not used by any other resource.''
       Medium ''Linked Service'' ''Not used by any other resource.''
       (\<lambda>r. startswith r ''linkedServices'') redundant_resources"

definition check_orphaned_dataset :: "string list \<Rightarrow> checker \<Rightarrow> py_error + checker" where
  "check_orphaned_dataset redundant_resources =
     check_orphans ''Dataset(s) not used by any other resource.''
       Medium ''Dataset'' ''Not used by any other resource.''
       (\<lambda>r. startswith r ''datasets'') redundant_resources"

definition check_orphaned_triggers :: "string list \<Rightarrow> checker \<Rightarrow> py_error + checker" where
  "check_orphaned_triggers redundant_resources =
     check_orphans ''Trigger(s) not used by any other resource.''
       Medium ''Trigger'' ''Not used by any other resource.''
       (\<lambda>r. startswith r ''triggers'') redundant_resources"

subsection \<open>The Activity Chain Analyzer\<close>

text \<open>
  The first loop over the activities of a pipeline:
  \<^verbatim>\<open>
  for activity in pipeline['properties']['activities']:
      if 'dependsOn' in activity and len(activity['dependsOn']) > 1:
          for up_stream_activity in activity['dependsOn']:
              if 'Failed' in up_stream_activity['dependencyConditions']:
                  if up_stream_activity['activity'] not in activity_failure_dependencies:
                      activity_failure_dependencies.append(up_stream_activity['activity'])
  \<close>
\<close>

definition add_failure_dependencies :: "activity \<Rightarrow> string list \<Rightarrow> string list" where
  "add_failure_dependencies activity activity_failure_dependencies =
     (case a_dependsOn activity of
        None \<Rightarrow> activity_failure_dependencies
      | Some ds \<Rightarrow>
          if length ds > 1
          then fold (\<lambda>up_stream_activity acc.
                       if ''Failed'' \<in> set (dependencyConditions up_stream_activity)
                       then append_unique (dep_activity up_stream_activity) acc
                       else acc)
                 ds activity_failure_dependencies
          else activity_failure_dependencies)"

definition failure_dependencies :: "activity list \<Rightarrow> string list" where
  "failure_dependencies acts = fold add_failure_dependencies acts []"

text \<open>
  \<open>[act for act in pipeline['properties']['activities'] if act['name'] == activity_dependant]\<close>:
  the subscript \<open>act['name']\<close> raises \<open>KeyError\<close> at the first activity without a name.
\<close>

fun activities_named :: "string \<Rightarrow> activity list \<Rightarrow> py_error + activity list" where
  "activities_named n [] = Inr []"
| "activities_named n (act # acts) =
     (case a_name act of
        None \<Rightarrow> Inl KeyError
      | Some m \<Rightarrow>
          (case activities_named n acts of
             Inl e \<Rightarrow> Inl e
           | Inr found \<Rightarrow> Inr (if m = n then act # found else found)))"

text \<open>
  The body of the inner loop of the second pass:
  \<^verbatim>\<open>
  if 'dependsOn' in activity and len(activity['dependsOn']) >= 1:
      for down_stream_activity in activity['dependsOn']:
          if 'Succeeded' in down_stream_activity['dependencyConditions']:
              if down_stream_activity['activity'] not in activity_success_dependencies:
                  activity_success_dependencies.append(down_stream_activity['activity'])
  \<close>
\<close>

definition add_success_dependencies :: "activity \<Rightarrow> string list \<Rightarrow> string list" where
  "add_success_dependencies activity activity_success_dependencies =
     (case a_dependsOn activity of
        None \<Rightarrow> activity_success_dependencies
      | Some ds \<Rightarrow>
          if length ds \<ge> 1
          then fold (\<lambda>down_stream_activity acc.
                       if ''Succeeded'' \<in> set (dependencyConditions down_stream_activity)
                       then append_unique (dep_activity down_stream_activity) acc
                       else acc)
                 ds activity_success_dependencies
          else activity_success_dependencies)"

text \<open>The second pass: \<open>for activity_dependant in activity_failure_dependencies: ...\<close>.\<close>

definition success_dependencies :: "activity list \<Rightarrow> string list \<Rightarrow> py_error + string list" where
  "success_dependencies acts activity_failure_dependencies =
     for_each
       (\<lambda>activity_dependant acc.
          case activities_named activity_dependant acts of
            Inl e \<Rightarrow> Inl e
          | Inr found \<Rightarrow> Inr (fold add_success_dependencies found acc))
       activity_failure_dependencies []"

text \<open>
  \<open>problems = [problem for problem in activity_failure_dependencies
     if problem in activity_success_dependencies]\<close>, for the activities of one pipeline.
\<close>

definition pipeline_problems :: "activity list \<Rightarrow> py_error + string list" where
  "pipeline_problems acts =
     (let activity_failure_dependencies = failure_dependencies acts
      in case success_dependencies acts activity_failure_dependencies of
           Inl e \<Rightarrow> Inl e
         | Inr activity_success_dependencies \<Rightarrow>
             Inr (filter (\<lambda>problem. problem \<in> set activity_success_dependencies)
                    activity_failure_dependencies))"

text \<open>\<open>if problems:\<close> for the activities of one pipeline: is the pipeline flagged?\<close>

definition pipeline_flagged :: "activity list \<Rightarrow> py_error + bool" where
  "pipeline_flagged acts =
     (case pipeline_problems acts of Inl e \<Rightarrow> Inl e | Inr problems \<Rightarrow> Inr (problems \<noteq> []))"

text \<open>The body of the loop \<open>for pipeline in pipelines\<close>.\<close>

definition impossible_chain_body :: "resource \<Rightarrow> nat \<times> checker \<Rightarrow> py_error + nat \<times> checker" where
  "impossible_chain_body pipeline cs =
     (let pipeline_name = clean_name (r_name pipeline)
      in case activities (r_properties pipeline) of
           None \<Rightarrow> Inl KeyError
         | Some acts \<Rightarrow>
             (case pipeline_flagged acts of
                Inl e \<Rightarrow> Inl e
              | Inr flagged \<Rightarrow>
                  Inr (if flagged
                       then count_issue
                              \<lparr>Component = ''Pipeline'', Name = pipeline_name,
                               CheckDetail = ''Has an impossible AND/OR activity execution chain.'',
                               Severity = High\<rparr> cs
                       else cs)))"

definition check_pipeline_impossible_execution_chain :: "resource list \<Rightarrow> checker \<Rightarrow> py_error + checker" where
  "check_pipeline_impossible_execution_chain pipelines self =
     (case for_each impossible_chain_body pipelines (start_check self) of
        Inl e \<Rightarrow> Inl e
      | Inr cs \<Rightarrow>
          Inr (finish_check
                 ''Pipeline(s) with an impossible AND/OR activity execution chain.'' High cs))"

subsection \<open>Rules over one field of a resource\<close>

text \<open>
  The rules on descriptions, folders and annotations of pipelines, data flows, linked
  services, datasets and triggers share one loop; only the texts and the test differ:
  \<^verbatim>\<open>
  for pipeline in pipelines:
      pipeline_name = clean_name(pipeline['name'])
      pipeline_description = pipeline['properties'].get('description', '')
      if not pipeline_description:
          check_counter += 1
          if self.verbose:
              self.verbose_detail_table.append({"Component": "Pipeline",
                  "Name": pipeline_name, "CheckDetail": ..., "Severity": severity})
  \<close>
  None of the lookups of these rules can raise.
\<close>

definition check_resources ::
  "string \<Rightarrow> severity \<Rightarrow> string \<Rightarrow> string \<Rightarrow> (resource \<Rightarrow> bool) \<Rightarrow> resource list \<Rightarrow> checker
     \<Rightarrow> py_error + checker" where
  "check_resources check_detail sev component finding_detail issue rs self =
     Inr (finish_check check_detail sev
            (fold (\<lambda>r cs.
                     if issue r
                     then count_issue
                            \<lparr>Component = component, Name = clean_name (r_name r),
                             CheckDetail = finding_detail, Severity = sev\<rparr> cs
                     else cs)
               rs (start_check self)))"

text \<open>\<open>not r['properties'].get('description', '')\<close>.\<close>

definition no_description :: "resource \<Rightarrow> bool" where
  "no_description r = not_str (description (r_properties r))"

text \<open>\<open>not r['properties'].get('folder', {}).get('name', '')\<close>.\<close>

definition no_folder :: "resource \<Rightarrow> bool" where
  "no_folder r =
     not_str (case folder (r_properties r) of None \<Rightarrow> None | Some f \<Rightarrow> fld_name f)"

text \<open>\<open>len(r['properties'].get('annotations', [])) <= 0\<close>.\<close>

definition no_annotations :: "resource \<Rightarrow> bool" where
  "no_annotations r =
     (length (case annotations (r_properties r) of None \<Rightarrow> [] | Some xs \<Rightarrow> xs) \<le> 0)"

definition check_pipeline_descriptions :: "resource list \<Rightarrow> checker \<Rightarrow> py_error + checker" where
  "check_pipeline_descriptions pipelines =
     check_resources ''Pipeline(s) without a description value.'' Low
       ''Pipeline'' ''Does not have a description.'' no_description pipelines"

definition check_pipelines_not_in_folder :: "resource list \<Rightarrow> checker \<Rightarrow> py_error + checker" where
  "check_pipelines_not_in_folder pipelines =
     check_resources ''Pipeline(s) not organised into folders.'' Low
       ''Pipeline'' ''Not organised into a folder.'' no_folder pipelines"

definition check_pipelines_without_annotation :: "resource list \<Rightarrow> checker \<Rightarrow> py_error + checker" where
  "check_pipelines_without_annotation pipelines =
     check_resources ''Pipeline(s) without annotations.'' Low
       ''Pipeline'' ''Does not have any annotations.'' no_annotations pipelines"

definition check_data_flow_descriptions :: "resource list \<Rightarrow> checker \<Rightarrow> py_error + checker" where
  "check_data_flow_descriptions dataflows =
     check_resources ''Data Flow(s) without a description value.'' Low
       ''Data Flow'' ''Does not have a description.'' no_description dataflows"

definition check_linked_services_has_description :: "resource list \<Rightarrow> checker \<Rightarrow> py_error + checker" where
  "check_linked_services_has_description linked_services =
     check_resources ''Linked Service(s) without a description value.'' Low
       ''Linked Service'' ''Does not have a description.'' no_description linked_services"

definition check_linked_services_has_annotation :: "resource list \<Rightarrow> checker \<Rightarrow> py_error + checker" where
  "check_linked_services_has_annotation linked_services =
     check_resources ''Linked Service(s) without annotations.'' Low
       ''Linked Service'' ''Does not have any annotations.'' no_annotations linked_services"

definition check_datasets_without_description :: "resource list \<Rightarrow> checker \<Rightarrow> py_error + checker" where
  "check_datasets_without_description datasets =
     check_resources ''Dataset(s) without a description value.'' Low
       ''Dataset'' ''Does not have a description.'' no_description datasets"

definition check_datasets_not_in_folder :: "resource list \<Rightarrow> checker \<Rightarrow> py_error + checker" where
  "check_datasets_not_in_folder datasets =
     check_resources ''Dataset(s) not organised into folders.'' Low
       ''Dataset'' ''Not organised into a folder.'' no_folder datasets"

definition check_datasets_without_annotation :: "resource list \<Rightarrow> checker \<Rightarrow> py_error + checker" where
  "check_datasets_without_annotation datasets =
     check_resources ''Dataset(s) without annotations.'' Low
       ''Dataset'' ''Does not have any annotations.'' no_annotations datasets"

definition check_triggers_has_description :: "resource list \<Rightarrow> checker \<Rightarrow> py_error + checker" where
  "check_triggers_has_description triggers =
     check_resources ''Trigger(s) without a description value.'' Low
       ''Trigger'' ''Does not have a description.'' no_description triggers"

definition check_triggers_without_annotation :: "resource list \<Rightarrow> checker \<Rightarrow> py_error + checker" where
  "check_triggers_without_annotation triggers =
     check_resources ''Trigger(s) without annotations.'' Low
       ''Trigger'' ''Does not have any annotations.'' no_annotations triggers"

subsection \<open>Rules over the activities\<close>

text \<open>
  \<open>main\<close> hands the activity rules a list of tuples \<open>(folder_name, activity)\<close>. One rule
  unpacks the tuple (\<open>for folder_name, activity in activities\<close>); the others take the
  loop variable itself as the activity dict (\<open>for activity in activities\<close>). What the
  loop variable holds is therefore part of the model: a dict or a tuple, with the
  result Python gives for each operation the rules apply to it.
\<close>

datatype item = Dict activity | Tuple string activity

text \<open>
  \<open>'policy' in activity\<close>: on a dict, the key is present; on a tuple, one of its
  components equals the string (the second component is a dict and never does).
\<close>

fun policy_in :: "item \<Rightarrow> bool" where
  "policy_in (Dict d) = (a_policy d \<noteq> None)"
| "policy_in (Tuple folder_name d) = (folder_name = ''policy'')"

text \<open>
  \<open>activity['policy']\<close>: \<open>KeyError\<close> on a dict without the key; \<open>TypeError\<close> on a tuple,
  whose indices must be integers.
\<close>

fun subscript_policy :: "item \<Rightarrow> py_error + policy" where
  "subscript_policy (Dict d) = (case a_policy d of None \<Rightarrow> Inl KeyError | Some p \<Rightarrow> Inr p)"
| "subscript_policy (Tuple folder_name d) = Inl TypeError"

text \<open>\<open>activity['typeProperties']\<close>.\<close>

fun subscript_typeProperties :: "item \<Rightarrow> py_error + activity_type_properties" where
  "subscript_typeProperties (Dict d) =
     (case a_typeProperties d of None \<Rightarrow> Inl KeyError | Some tp \<Rightarrow> Inr tp)"
| "subscript_typeProperties (Tuple folder_name d) = Inl TypeError"

text \<open>
  \<open>activity.get('name', default)\<close>, \<open>activity.get('description', '')\<close> and
  \<open>activity.get('type')\<close>: a tuple has no attribute \<open>get\<close>.
\<close>

fun get_name :: "item \<Rightarrow> string \<Rightarrow> py_error + string" where
  "get_name (Dict d) dflt = Inr (case a_name d of None \<Rightarrow> dflt | Some n \<Rightarrow> n)"
| "get_name (Tuple folder_name d) dflt = Inl AttributeError"

fun get_description :: "item \<Rightarrow> py_error + string" where
  "get_description (Dict d) = Inr (case a_description d of None \<Rightarrow> [] | Some n \<Rightarrow> n)"
| "get_description (Tuple folder_name d) = Inl AttributeError"

fun get_type :: "item \<Rightarrow> py_error + string option" where
  "get_type (Dict d) = Inr (a_type d)"
| "get_type (Tuple folder_name d) = Inl AttributeError"

text \<open>The row of an activity rule; \<open>Name\<close> is \<open>activity.get('name', default)\<close>.\<close>

definition activity_row :: "item \<Rightarrow> string \<Rightarrow> string \<Rightarrow> severity \<Rightarrow> py_error + finding" where
  "activity_row activity dflt finding_detail sev =
     (case get_name activity dflt of
        Inl e \<Rightarrow> Inl e
      | Inr n \<Rightarrow>
          Inr \<lparr>Component = ''Activity'', Name = n, CheckDetail = finding_detail,
               Severity = sev\<rparr>)"

text \<open>
  \<^verbatim>\<open>
  for activity in activities:
      if 'policy' in activity and 'timeout' in activity['policy']:
          timeout = activity['policy']['timeout']
          if timeout and timeout == "7.00:00:00":
              check_counter += 1
              if self.verbose:
                  self.verbose_detail_table.append({...
                      "Name": activity.get('name', 'Unnamed Activity'), ...})
  \<close>
\<close>

definition activity_timeout_body :: "item \<Rightarrow> nat \<times> checker \<Rightarrow> py_error + nat \<times> checker" where
  "activity_timeout_body activity cs =
     (if policy_in activity
      then (case subscript_policy activity of
              Inl e \<Rightarrow> Inl e
            | Inr p \<Rightarrow>
                (case timeout p of
                   None \<Rightarrow> Inr cs
                 | Some t \<Rightarrow>
                     if t \<noteq> [] \<and> t = ''7.00:00:00''
                     then record_issue
                            (activity_row activity ''Unnamed Activity''
                               ''Timeout policy still set to the service default value of 7 days.''
                               High)
                            cs
                     else Inr cs))
      else Inr cs)"

definition check_activity_timeout_values :: "item list \<Rightarrow> checker \<Rightarrow> py_error + checker" where
  "check_activity_timeout_values activities_list self =
     (case for_each activity_timeout_body activities_list (start_check self) of
        Inl e \<Rightarrow> Inl e
      | Inr cs \<Rightarrow>
          Inr (finish_check
                 ''Activities with timeout values still set to the service default value of 7 days.''
                 High cs))"

text \<open>
  The rule that unpacks the tuples:
  \<^verbatim>\<open>
  for folder_name, activity in activities:
      if 'policy' in activity and 'timeout' in activity['policy']:
          diu = activity["typeProperties"].get("dataIntegrationUnits")
          activity_type = activity["type"]
          if activity_type == "Copy" and diu is None:
              check_counter += 1
              if self.verbose:
                  self.verbose_detail_table.append({...
                      "Name": f"{folder_name}/{activity.get('name', 'Unnamed Activity')}", ...})
  \<close>
\<close>

definition copy_activity_diu_body ::
  "string \<times> activity \<Rightarrow> nat \<times> checker \<Rightarrow> py_error + nat \<times> checker" where
  "copy_activity_diu_body fa cs =
     (case fa of (folder_name, activity) \<Rightarrow>
        (case a_policy activity of
           None \<Rightarrow> Inr cs
         | Some p \<Rightarrow>
             (case timeout p of
                None \<Rightarrow> Inr cs
              | Some t \<Rightarrow>
                  (case a_typeProperties activity of
                     None \<Rightarrow> Inl KeyError
                   | Some tp \<Rightarrow>
                       (let diu = dataIntegrationUnits tp
                        in case a_type activity of
                             None \<Rightarrow> Inl KeyError
                           | Some activity_type \<Rightarrow>
                               if activity_type = ''Copy'' \<and> diu = None
                               then Inr (count_issue
                                      \<lparr>Component = ''Activity'',
                                       Name = folder_name @ ''/'' @
                                         (case a_name activity of
                                            None \<Rightarrow> ''Unnamed Activity''
                                          | Some n \<Rightarrow> n),
                                       CheckDetail =
                                         ''DIU still set to the service default value of 'Auto'.'',
                                       Severity = High\<rparr> cs)
                               else Inr cs)))))"

definition check_copy_activity_diu_values ::
  "(string \<times> activity) list \<Rightarrow> checker \<Rightarrow> py_error + checker" where
  "check_copy_activity_diu_values activities_list self =
     (case for_each copy_activity_diu_body activities_list (start_check self) of
        Inl e \<Rightarrow> Inl e
      | Inr cs \<Rightarrow>
          Inr (finish_check
                 (''Activities with DIU (Data Integration Units) values still set to the '' @
                  ''service default value of 'Auto'' @ [CHR 0x27])
                 High cs))"

text \<open>
  \<^verbatim>\<open>
  for activity in activities:
      activity_description = activity.get('description', '')
      if not activity_description:
          check_counter += 1
          if self.verbose: ...
  \<close>
\<close>

definition activity_description_body :: "item \<Rightarrow> nat \<times> checker \<Rightarrow> py_error + nat \<times> checker" where
  "activity_description_body activity cs =
     (case get_description activity of
        Inl e \<Rightarrow> Inl e
      | Inr activity_description \<Rightarrow>
          if activity_description = []
          then record_issue
                 (activity_row activity ''Unnamed Activity'' ''Does not have a description.'' Low)
                 cs
          else Inr cs)"

definition check_activity_description :: "item list \<Rightarrow> checker \<Rightarrow> py_error + checker" where
  "check_activity_description activities_list self =
     (case for_each activity_description_body activities_list (start_check self) of
        Inl e \<Rightarrow> Inl e
      | Inr cs \<Rightarrow> Inr (finish_check ''Activities without a description value.'' Low cs))"

text \<open>\<open>[act for act in activities if act.get('type') == 'ForEach']\<close>.\<close>

fun foreach_activities :: "item list \<Rightarrow> py_error + item list" where
  "foreach_activities [] = Inr []"
| "foreach_activities (act # acts) =
     (case get_type act of
        Inl e \<Rightarrow> Inl e
      | Inr ty \<Rightarrow>
          (case foreach_activities acts of
             Inl e \<Rightarrow> Inl e
           | Inr found \<Rightarrow> Inr (if ty = Some ''ForEach'' then act # found else found)))"

text \<open>
  \<^verbatim>\<open>
  is_sequential = activity['typeProperties'].get('isSequential', False)
  batch_count = activity['typeProperties'].get('batchCount', '')
  if not is_sequential:
      if not batch_count:
          check_counter += 1
          if self.verbose: ...
  \<close>
  \<open>not batch_count\<close> holds for the default \<open>''\<close> and for the number \<open>0\<close>.
\<close>

definition foreach_batch_size_unset_body ::
  "item \<Rightarrow> nat \<times> checker \<Rightarrow> py_error + nat \<times> checker" where
  "foreach_batch_size_unset_body activity cs =
     (case subscript_typeProperties activity of
        Inl e \<Rightarrow> Inl e
      | Inr tp \<Rightarrow>
          (let is_sequential = (case isSequential tp of None \<Rightarrow> False | Some b \<Rightarrow> b);
               not_batch_count = (case batchCount tp of None \<Rightarrow> True | Some n \<Rightarrow> n = 0)
           in if \<not> is_sequential
              then if not_batch_count
                   then record_issue
                          (activity_row activity ''Unnamed ForEach Activity''
                             ''ForEach does not have a batch count value set.'' High)
                          cs
                   else Inr cs
              else Inr cs))"

definition check_foreach_batch_size_unset :: "item list \<Rightarrow> checker \<Rightarrow> py_error + checker" where
  "check_foreach_batch_size_unset activities_list self =
     (case start_check self of cs0 \<Rightarrow>
        (case foreach_activities activities_list of
           Inl e \<Rightarrow> Inl e
         | Inr selected \<Rightarrow>
             (case for_each foreach_batch_size_unset_body selected cs0 of
                Inl e \<Rightarrow> Inl e
              | Inr cs \<Rightarrow>
                  Inr (finish_check
                         ''Activities ForEach iteration without a batch count value set.''
                         High cs))))"

text \<open>
  \<^verbatim>\<open>
  is_sequential = activity['typeProperties'].get('isSequential', False)
  batch_count = activity['typeProperties'].get('batchCount', None)
  if not is_sequential and batch_count is not None and int(batch_count) < 50:
      check_counter += 1
      if self.verbose: ...
  \<close>
\<close>

definition foreach_batch_size_lt_body ::
  "item \<Rightarrow> nat \<times> checker \<Rightarrow> py_error + nat \<times> checker" where
  "foreach_batch_size_lt_body activity cs =
     (case subscript_typeProperties activity of
        Inl e \<Rightarrow> Inl e
      | Inr tp \<Rightarrow>
          (let is_sequential = (case isSequential tp of None \<Rightarrow> False | Some b \<Rightarrow> b);
               batch_count = batchCount tp
           in if \<not> is_sequential \<and> (case batch_count of None \<Rightarrow> False | Some n \<Rightarrow> n < 50)
              then record_issue
                     (activity_row activity ''Unnamed ForEach Activity''
                        ''ForEach has a batch size that is less than the service maximum.''
                        Medium)
                     cs
              else Inr cs))"

definition check_foreach_activity_batch_size_lt_service_maximum ::
  "item list \<Rightarrow> checker \<Rightarrow> py_error + checker" where
  "check_foreach_activity_batch_size_lt_service_maximum activities_list self =
     (case start_check self of cs0 \<Rightarrow>
        (case foreach_activities activities_list of
           Inl e \<Rightarrow> Inl e
         | Inr selected \<Rightarrow>
             (case for_each foreach_batch_size_lt_body selected cs0 of
                Inl e \<Rightarrow> Inl e
              | Inr cs \<Rightarrow>
                  Inr (finish_check
                         (''Activities ForEach iteration with a batch count size that is '' @
                          ''less than the service maximum.'')
                         Medium cs))))"

subsection \<open>The linked services and the secret store\<close>

text \<open>
  \<^verbatim>\<open>
  def is_sensitive_property(name: str):
      lowered_name = name.lower()
      return ("key" in lowered_name or "secret" in lowered_name
              or "password" in lowered_name or "token" in lowered_name)
  \<close>
\<close>

definition is_sensitive_property :: "string \<Rightarrow> bool" where
  "is_sensitive_property name =
     (let lowered_name = str_lower name
      in str_contains lowered_name ''key'' \<or> str_contains lowered_name ''secret''
         \<or> str_contains lowered_name ''password'' \<or> str_contains lowered_name ''token'')"

text \<open>\<open>[ls for ls in linked_services if ls['properties']['type'] != "AzureKeyVault"]\<close>.\<close>

fun not_key_vault :: "resource list \<Rightarrow> py_error + resource list" where
  "not_key_vault [] = Inr []"
| "not_key_vault (ls # lss) =
     (case props_type (r_properties ls) of
        None \<Rightarrow> Inl KeyError
      | Some ty \<Rightarrow>
          (case not_key_vault lss of
             Inl e \<Rightarrow> Inl e
           | Inr found \<Rightarrow> Inr (if ty \<noteq> ''AzureKeyVault'' then ls # found else found)))"

text \<open>
  The body of the loop over \<open>typeProperties.items()\<close>:
  \<^verbatim>\<open>
  if 'secretName' not in str(prop_value) and is_sensitive_property(name=prop_name):
      linked_service_name = f"{clean_name(linked_service['name'])} -> {prop_name}"
      if linked_service_name not in linked_service_list:
          linked_service_list.append(linked_service_name)
  else:
      linked_service_name = clean_name(linked_service['name'])
      if linked_service_name in linked_service_list:
          linked_service_list.remove(linked_service_name)
  \<close>
\<close>

definition key_vault_property :: "resource \<Rightarrow> string \<times> string \<Rightarrow> string list \<Rightarrow> string list" where
  "key_vault_property linked_service prop linked_service_list =
     (case prop of (prop_name, prop_value_str) \<Rightarrow>
        if \<not> str_contains prop_value_str ''secretName'' \<and> is_sensitive_property prop_name
        then append_unique (clean_name (r_name linked_service) @ '' -> '' @ prop_name)
               linked_service_list
        else (let linked_service_name = clean_name (r_name linked_service)
              in if linked_service_name \<in> set linked_service_list
                 then remove1 linked_service_name linked_service_list
                 else linked_service_list))"

definition key_vault_body :: "resource \<Rightarrow> string list \<Rightarrow> py_error + string list" where
  "key_vault_body linked_service linked_service_list =
     (case typeProperties (r_properties linked_service) of
        None \<Rightarrow> Inl KeyError
      | Some props \<Rightarrow> Inr (fold (key_vault_property linked_service) props linked_service_list))"

text \<open>
  This rule counts after its loop (\<open>check_counter = len(linked_service_list)\<close>), appends
  the summary row and then, under \<open>if self.verbose\<close>, one row for each listed name.
\<close>

definition check_linked_services_using_key_vault :: "resource list \<Rightarrow> checker \<Rightarrow> py_error + checker" where
  "check_linked_services_using_key_vault linked_services self =
     (case start_check self of (zero, self1) \<Rightarrow>
        (case not_key_vault linked_services of
           Inl e \<Rightarrow> Inl e
         | Inr selected \<Rightarrow>
             (case for_each key_vault_body selected [] of
                Inl e \<Rightarrow> Inl e
              | Inr linked_service_list \<Rightarrow>
                  (let check_counter = length linked_service_list;
                       self2 = finish_check
                         ''Linked Service(s) not using Azure Key Vault to store credentials.''
                         High (check_counter, self1)
                   in Inr (if verbose self2 \<noteq> 0
                           then self2\<lparr>verbose_detail_table := verbose_detail_table self2 @
                                  map (\<lambda>linked_service_output.
                                         \<lparr>Component = ''Linked Service'',
                                          Name = linked_service_output,
                                          CheckDetail = ''Not using Key Vault to store credentials.'',
                                          Severity = High\<rparr>)
                                    linked_service_list\<rparr>
                           else self2)))))"

subsection \<open>The exit status and \<open>main\<close>\<close>

text \<open>
  How a run that raised nothing ends: \<open>sys.exit(has_errors)\<close>, or the plain return of
  \<open>main\<close> when the assertion is ignored.
  \<^verbatim>\<open>
  def assert_adf_lint_free(self):
      if not self.ignore_assertion:
          has_errors = len(self.verbose_detail_table) > len(self.summary_table) > 0
          sys.exit(has_errors)
  \<close>
\<close>

datatype outcome = SysExit bool | Returned

definition assert_adf_lint_free :: "checker \<Rightarrow> outcome" where
  "assert_adf_lint_free self =
     (if \<not> ignore_assertion self
      then (let has_errors =
                  (length (verbose_detail_table self) > length (summary_table self)
                   \<and> length (summary_table self) > 0)
            in SysExit has_errors)
      else Returned)"

text \<open>
  The exit status of the process: \<open>sys.exit(True)\<close> is status \<open>1\<close>, \<open>sys.exit(False)\<close> is
  status \<open>0\<close>, and a command that returns ends the process with status \<open>0\<close>.
\<close>

fun exit_status :: "outcome \<Rightarrow> nat" where
  "exit_status (SysExit has_errors) = (if has_errors then 1 else 0)"
| "exit_status Returned = 0"

text \<open>
  \<open>[(pipeline['properties']["folder"]["name"], p) for pipeline in pipelines
     for p in pipeline['properties']["activities"]]\<close>: for each pipeline the list of its
  activities is looked up first, and the folder name once for every activity in it.
\<close>

definition pipeline_activities :: "resource \<Rightarrow> py_error + (string \<times> activity) list" where
  "pipeline_activities pipeline =
     (case activities (r_properties pipeline) of
        None \<Rightarrow> Inl KeyError
      | Some acts \<Rightarrow>
          for_each
            (\<lambda>p acc.
               case folder (r_properties pipeline) of
                 None \<Rightarrow> Inl KeyError
               | Some f \<Rightarrow>
                   (case fld_name f of
                      None \<Rightarrow> Inl KeyError
                    | Some folder_name \<Rightarrow> Inr (acc @ [(folder_name, p)])))
            acts [])"

definition slice_activities :: "resource list \<Rightarrow> py_error + (string \<times> activity) list" where
  "slice_activities pipelines =
     for_each
       (\<lambda>pipeline acc.
          case pipeline_activities pipeline of
            Inl e \<Rightarrow> Inl e
          | Inr xs \<Rightarrow> Inr (acc @ xs))
       pipelines []"

text \<open>The rules of \<open>main\<close>, run in order; the first raise ends the run.\<close>

definition run_checks :: "(checker \<Rightarrow> py_error + checker) list \<Rightarrow> checker \<Rightarrow> py_error + checker" where
  "run_checks checks self = for_each (\<lambda>check st. check st) checks self"

text \<open>
  The tuples of \<open>activities\<close> as the loop variable of a rule that does not unpack them.
\<close>

definition as_items :: "(string \<times> activity) list \<Rightarrow> item list" where
  "as_items activities_list = map (\<lambda>(folder_name, p). Tuple folder_name p) activities_list"

text \<open>\<open>[res for res in adf['resources'] if res['type'] == ty]\<close>.\<close>

definition of_type :: "string \<Rightarrow> arm_template \<Rightarrow> resource list" where
  "of_type ty adf = filter (\<lambda>res. r_type res = ty) (resources adf)"

text \<open>The rule stage of \<open>main\<close>: the twenty-two calls, in the order of the source.\<close>

definition checks_of ::
  "resource list \<Rightarrow> resource list \<Rightarrow> resource list \<Rightarrow> (string \<times> activity) list \<Rightarrow> resource list
     \<Rightarrow> resource list \<Rightarrow> string list \<Rightarrow> (checker \<Rightarrow> py_error + checker) list" where
  "checks_of linked_services datasets pipelines activities_list dataflows triggers
     redundant_resources =
     [check_master_pipeline_without_triggers redundant_resources,
      check_pipeline_impossible_execution_chain pipelines,
      check_pipeline_descriptions pipelines,
      check_pipelines_not_in_folder pipelines,
      check_pipelines_without_annotation pipelines,
      check_data_flow_descriptions dataflows,
      check_activity_timeout_values (as_items activities_list),
      check_copy_activity_diu_values activities_list,
      check_activity_description (as_items activities_list),
      check_foreach_batch_size_unset (as_items activities_list),
      check_foreach_activity_batch_size_lt_service_maximum (as_items activities_list),
      check_linked_services_using_key_vault linked_services,
      check_orphaned_linked_services redundant_resources,
      check_linked_services_has_description linked_services,
      check_linked_services_has_annotation linked_services,
      check_orphaned_dataset redundant_resources,
      check_datasets_without_description datasets,
      check_datasets_not_in_folder datasets,
      check_datasets_without_annotation datasets,
      check_orphaned_triggers redundant_resources,
      check_triggers_has_description triggers,
      check_triggers_without_annotation triggers]"

text \<open>
  \<open>ADFLintChecker.main\<close>, from the parsed template on. The result is the exception that
  ended the run, or how the run ended together with the final state of the checker.
\<close>

definition main :: "checker \<Rightarrow> arm_template \<Rightarrow> py_error + outcome \<times> checker" where
  "main self adf =
     (let linked_services = of_type ''Microsoft.DataFactory/factories/linkedServices'' adf;
          datasets = of_type ''Microsoft.DataFactory/factories/datasets'' adf;
          pipelines = of_type ''Microsoft.DataFactory/factories/pipelines'' adf
      in case slice_activities pipelines of
           Inl e \<Rightarrow> Inl e
         | Inr activities_list \<Rightarrow>
             (let dataflows = of_type ''Microsoft.DataFactory/factories/dataflows'' adf;
                  triggers = of_type ''Microsoft.DataFactory/factories/triggers'' adf;
                  redundant_resources = get_resource_dependants adf triggers
              in case run_checks
                        (checks_of linked_services datasets pipelines activities_list
                           dataflows triggers redundant_resources) self of
                   Inl e \<Rightarrow> Inl e
                 | Inr self' \<Rightarrow> Inr (assert_adf_lint_free self', self')))"

section \<open>The sets and conditions of the specification\<close>

text \<open>
  The definitions of this section are not translations of the code. They state the
  sets of the specification in its own words, and name the conditions on a template
  that the theorems below are about; the theorems compare them with the code.
\<close>

subsection \<open>Orphan detection\<close>

text \<open>A list without its repetitions, each element at its first occurrence.\<close>

fun first_occurrences :: "'a list \<Rightarrow> 'a list" where
  "first_occurrences [] = []"
| "first_occurrences (x # xs) = x # filter (\<lambda>y. y \<noteq> x) (first_occurrences xs)"

text \<open>
  \<open>declared\<close>: the identifiers \<open>typeFamily|canonicalName\<close> of the top-level resources, in
  declaration order.
\<close>

definition declared :: "arm_template \<Rightarrow> string list" where
  "declared adf = first_occurrences (map complete_resource (resources adf))"

text \<open>The canonicalized targets of one resource's \<open>dependsOn\<close> list.\<close>

definition dependsOn_targets :: "resource \<Rightarrow> string list" where
  "dependsOn_targets r =
     (case r_dependsOn r of None \<Rightarrow> [] | Some ds \<Rightarrow> map complete_dependant ds)"

text \<open>A resource that has one or more \<open>dependsOn\<close> entries.\<close>

definition has_dependencies :: "resource \<Rightarrow> bool" where
  "has_dependencies r = (case r_dependsOn r of None \<Rightarrow> False | Some ds \<Rightarrow> ds \<noteq> [])"

text \<open>What the Trigger-specific step adds: the own identifier of every such Trigger.\<close>

definition wired_triggers :: "resource list \<Rightarrow> string set" where
  "wired_triggers triggers = set (map complete_resource (filter has_dependencies triggers))"

text \<open>\<open>referenced\<close>: every target of every resource, and the Triggers of the step above.\<close>

definition referenced :: "arm_template \<Rightarrow> resource list \<Rightarrow> string set" where
  "referenced adf triggers =
     set (concat (map dependsOn_targets (resources adf))) \<union> wired_triggers triggers"

subsection \<open>Contradiction detection\<close>

text \<open>The targets of the entries of a \<open>dependsOn\<close> list that carry a condition.\<close>

definition targets_with :: "string \<Rightarrow> dependency list \<Rightarrow> string list" where
  "targets_with condition ds =
     map dep_activity (filter (\<lambda>d. condition \<in> set (dependencyConditions d)) ds)"

text \<open>
  \<open>mustHaveFailed\<close>: the names with a \<open>Failed\<close> condition inside the \<open>dependsOn\<close> list of
  some activity whose list has more than one entry.
\<close>

definition failed_targets :: "activity \<Rightarrow> string list" where
  "failed_targets a =
     (case a_dependsOn a of
        None \<Rightarrow> []
      | Some ds \<Rightarrow> if length ds > 1 then targets_with ''Failed'' ds else [])"

definition must_have_failed :: "activity list \<Rightarrow> string set" where
  "must_have_failed acts = set (concat (map failed_targets acts))"

text \<open>
  \<open>mustHaveSucceeded\<close>: the \<open>Succeeded\<close> targets in the \<open>dependsOn\<close> lists of the activities
  named in a set of names.
\<close>

definition succeeded_targets :: "activity \<Rightarrow> string list" where
  "succeeded_targets a =
     (case a_dependsOn a of None \<Rightarrow> [] | Some ds \<Rightarrow> targets_with ''Succeeded'' ds)"

definition named_in :: "string set \<Rightarrow> activity \<Rightarrow> bool" where
  "named_in names a = (case a_name a of None \<Rightarrow> False | Some n \<Rightarrow> n \<in> names)"

definition must_have_succeeded :: "activity list \<Rightarrow> string set \<Rightarrow> string set" where
  "must_have_succeeded acts names =
     set (concat (map succeeded_targets (filter (named_in names) acts)))"

text \<open>\<open>contradictions\<close>: the intersection of the two sets.\<close>

definition contradictions :: "activity list \<Rightarrow> string set" where
  "contradictions acts =
     must_have_failed acts \<inter> must_have_succeeded acts (must_have_failed acts)"

text \<open>Every activity of a list carries a name.\<close>

definition all_named :: "activity list \<Rightarrow> bool" where
  "all_named acts = list_all (\<lambda>a. a_name a \<noteq> None) acts"

text \<open>A pipeline whose activity list can be analysed without a raise.\<close>

definition analyzable :: "resource \<Rightarrow> bool" where
  "analyzable p =
     (case activities (r_properties p) of None \<Rightarrow> False | Some acts \<Rightarrow> all_named acts)"

text \<open>A pipeline with a non-empty set of contradictions.\<close>

definition contradictory :: "resource \<Rightarrow> bool" where
  "contradictory p =
     (case activities (r_properties p) of
        None \<Rightarrow> False
      | Some acts \<Rightarrow> contradictions acts \<noteq> {})"

text \<open>The Finding of a flagged pipeline.\<close>

definition chain_finding :: "resource \<Rightarrow> finding" where
  "chain_finding p =
     \<lparr>Component = ''Pipeline'', Name = clean_name (r_name p),
      CheckDetail = ''Has an impossible AND/OR activity execution chain.'',
      Severity = High\<rparr>"

text \<open>Findings reach the detail table only when \<open>verbose\<close> is set.\<close>

definition add_findings :: "finding list \<Rightarrow> checker \<Rightarrow> checker" where
  "add_findings fs self =
     (if verbose self \<noteq> 0
      then self\<lparr>verbose_detail_table := verbose_detail_table self @ fs\<rparr>
      else self)"

subsection \<open>Activities and their fields\<close>

text \<open>An activity whose \<open>policy.timeout\<close> is the literal default.\<close>

definition has_default_timeout :: "activity \<Rightarrow> bool" where
  "has_default_timeout a =
     (case a_policy a of None \<Rightarrow> False | Some p \<Rightarrow> timeout p = Some ''7.00:00:00'')"

definition timeout_finding :: "activity \<Rightarrow> finding" where
  "timeout_finding a =
     \<lparr>Component = ''Activity'',
      Name = (case a_name a of None \<Rightarrow> ''Unnamed Activity'' | Some n \<Rightarrow> n),
      CheckDetail = ''Timeout policy still set to the service default value of 7 days.'',
      Severity = High\<rparr>"

text \<open>An activity with a \<open>policy.timeout\<close>: the ones whose \<open>typeProperties\<close> the DIU rule reads.\<close>

definition has_timeout :: "activity \<Rightarrow> bool" where
  "has_timeout a = (case a_policy a of None \<Rightarrow> False | Some p \<Rightarrow> timeout p \<noteq> None)"

text \<open>A tuple of \<open>activities\<close> on which the DIU rule reads a missing \<open>typeProperties\<close>.\<close>

definition diu_unreadable :: "string \<times> activity \<Rightarrow> bool" where
  "diu_unreadable fa = (has_timeout (snd fa) \<and> a_typeProperties (snd fa) = None)"

text \<open>A \<open>ForEach\<close> activity without \<open>typeProperties\<close>.\<close>

definition foreach_unreadable :: "activity \<Rightarrow> bool" where
  "foreach_unreadable a = (a_type a = Some ''ForEach'' \<and> a_typeProperties a = None)"

subsection \<open>Slicing\<close>

text \<open>A pipeline without \<open>folder\<close>, or whose \<open>folder\<close> has no \<open>name\<close>.\<close>

definition lacks_folder_name :: "resource \<Rightarrow> bool" where
  "lacks_folder_name p =
     (case folder (r_properties p) of None \<Rightarrow> True | Some f \<Rightarrow> fld_name f = None)"

text \<open>
  A pipeline on which the slicing of \<open>main\<close> raises: it has no \<open>activities\<close>, or it has
  at least one activity and no folder name.
\<close>

definition unsliceable :: "resource \<Rightarrow> bool" where
  "unsliceable p =
     (case activities (r_properties p) of
        None \<Rightarrow> True
      | Some acts \<Rightarrow> acts \<noteq> [] \<and> lacks_folder_name p)"

subsection \<open>What a rule and a run change\<close>

text \<open>
  The loop of a rule leaves the counters and the summary alone, and the detail table
  too when \<open>verbose\<close> is \<open>0\<close>.
\<close>

definition loop_step :: "nat \<times> checker \<Rightarrow> nat \<times> checker \<Rightarrow> bool" where
  "loop_step cs cs' =
     (check_number (snd cs') = check_number (snd cs)
      \<and> summary_table (snd cs') = summary_table (snd cs)
      \<and> verbose (snd cs') = verbose (snd cs)
      \<and> ignore_assertion (snd cs') = ignore_assertion (snd cs)
      \<and> (verbose (snd cs) = 0 \<longrightarrow> verbose_detail_table (snd cs') = verbose_detail_table (snd cs)))"

text \<open>\<open>n\<close> rules that returned: \<open>n\<close> more checks and \<open>n\<close> more summary rows.\<close>

definition steps :: "nat \<Rightarrow> checker \<Rightarrow> checker \<Rightarrow> bool" where
  "steps n self self' =
     (check_number self' = check_number self + n
      \<and> length (summary_table self') = length (summary_table self) + n
      \<and> verbose self' = verbose self
      \<and> ignore_assertion self' = ignore_assertion self
      \<and> (verbose self = 0 \<longrightarrow> verbose_detail_table self' = verbose_detail_table self))"

definition rule_step :: "checker \<Rightarrow> checker \<Rightarrow> bool" where
  "rule_step self self' = steps 1 self self'"

subsection \<open>Observations of a run\<close>

text \<open>The exit status of a run that raised nothing.\<close>

definition exit_of :: "py_error + outcome \<times> checker \<Rightarrow> py_error + nat" where
  "exit_of run = map_sum id (\<lambda>r. exit_status (fst r)) run"

text \<open>The number of Findings recorded, of rules run, and of issues counted in all.\<close>

definition findings_of :: "py_error + outcome \<times> checker \<Rightarrow> py_error + nat" where
  "findings_of run = map_sum id (\<lambda>r. length (verbose_detail_table (snd r))) run"

definition rules_run_of :: "py_error + outcome \<times> checker \<Rightarrow> py_error + nat" where
  "rules_run_of run = map_sum id (\<lambda>r. check_number (snd r)) run"

definition issues_of :: "py_error + outcome \<times> checker \<Rightarrow> py_error + nat" where
  "issues_of run = map_sum id (\<lambda>r. sum_list (map IssueCount (summary_table (snd r)))) run"

text \<open>The issue counts of the summary rows, in the order the rules ran.\<close>

definition issue_counts_of :: "py_error + outcome \<times> checker \<Rightarrow> py_error + nat list" where
  "issue_counts_of run = map_sum id (\<lambda>r. map IssueCount (summary_table (snd r))) run"

text \<open>The summary row of the rule that ran at position \<open>k\<close>, counted from \<open>0\<close>.\<close>

definition summary_row_of :: "nat \<Rightarrow> py_error + outcome \<times> checker \<Rightarrow> py_error + summary_row" where
  "summary_row_of k run = map_sum id (\<lambda>r. summary_table (snd r) ! k) run"

text \<open>
  The exit status of the process for a whole run. An exception that nothing catches
  leaves \<open>main\<close> and the command line wrapper, and the interpreter ends with status \<open>1\<close>;
  a run that raised nothing ends as \<^const>\<open>exit_status\<close> says.
\<close>

definition process_exit_status :: "py_error + outcome \<times> checker \<Rightarrow> nat" where
  "process_exit_status run =
     (case run of Inl e \<Rightarrow> 1 | Inr r \<Rightarrow> exit_status (fst r))"

section \<open>Example templates\<close>

text \<open>The name expression of a resource \<open>n\<close>, as an exported template writes it.\<close>

definition arm_name :: "string \<Rightarrow> string" where
  "arm_name n = ''[concat(parameters('factoryName'), '/'' @ n @ [CHR 0x27] @ '')]''"

text \<open>A \<open>dependsOn\<close> entry that refers to the resource \<open>n\<close> of a type family.\<close>

definition arm_reference :: "string \<Rightarrow> string \<Rightarrow> string" where
  "arm_reference family n =
     ''[concat(variables('factoryId'), '/'' @ family @ ''/'' @ n @ [CHR 0x27] @ '')]''"

definition empty_properties :: properties where
  "empty_properties =
     \<lparr>description = None, folder = None, annotations = None, activities = None,
      props_type = None, typeProperties = None\<rparr>"

definition example_resource :: "string \<Rightarrow> string \<Rightarrow> string list option \<Rightarrow> resource" where
  "example_resource family n deps =
     \<lparr>r_name = arm_name n, r_type = ''Microsoft.DataFactory/factories/'' @ family,
      r_properties = empty_properties, r_dependsOn = deps\<rparr>"

definition example_activity :: "string \<Rightarrow> dependency list option \<Rightarrow> activity" where
  "example_activity n deps =
     \<lparr>a_name = Some n, a_type = Some ''Wait'', a_description = None, a_dependsOn = deps,
      a_policy = None, a_typeProperties = None\<rparr>"

definition example_pipeline :: "string \<Rightarrow> string option \<Rightarrow> activity list option \<Rightarrow> resource" where
  "example_pipeline n folder_name acts =
     \<lparr>r_name = arm_name n, r_type = ''Microsoft.DataFactory/factories/pipelines'',
      r_properties = empty_properties
        \<lparr>folder := map_option (\<lambda>f. \<lparr>fld_name = Some f\<rparr>) folder_name, activities := acts\<rparr>,
      r_dependsOn = None\<rparr>"

text \<open>A factory with one dataset and nothing else.\<close>

definition dataset_only :: arm_template where
  "dataset_only = \<lparr>resources = [example_resource ''datasets'' ''DS1'' None]\<rparr>"

text \<open>A factory with six datasets: four issues each.\<close>

definition six_datasets :: arm_template where
  "six_datasets =
     \<lparr>resources = map (\<lambda>n. example_resource ''datasets'' n None)
        [''DS1'', ''DS2'', ''DS3'', ''DS4'', ''DS5'', ''DS6'']\<rparr>"

text \<open>
  A factory whose linked service and first dataset are used, whose pipeline is started
  by the trigger \<open>T1\<close>, and whose second dataset and trigger \<open>T2\<close> are used by nothing.
\<close>

definition wired_factory :: arm_template where
  "wired_factory =
     \<lparr>resources =
        [example_resource ''linkedServices'' ''LS1'' None,
         example_resource ''datasets'' ''DS1'' (Some [arm_reference ''linkedServices'' ''LS1'']),
         example_resource ''datasets'' ''DS2'' None,
         example_resource ''pipelines'' ''PL1''
           (Some [arm_reference ''datasets'' ''DS1'', arm_reference ''linkedServices'' ''LS1'']),
         example_resource ''triggers'' ''T1'' (Some [arm_reference ''pipelines'' ''PL1'']),
         example_resource ''triggers'' ''T2'' (Some [])]\<rparr>"

text \<open>
  Activities with a contradiction: \<open>A\<close> waits for \<open>B\<close> and \<open>C\<close> to fail, and \<open>B\<close> waits
  for \<open>C\<close> to succeed.
\<close>

definition clash_activities :: "activity list" where
  "clash_activities =
     [example_activity ''A''
        (Some [\<lparr>dep_activity = ''B'', dependencyConditions = [''Failed'']\<rparr>,
               \<lparr>dep_activity = ''C'', dependencyConditions = [''Failed'']\<rparr>]),
      example_activity ''B''
        (Some [\<lparr>dep_activity = ''C'', dependencyConditions = [''Succeeded'']\<rparr>]),
      example_activity ''C'' None]"

definition clash_pipeline :: resource where
  "clash_pipeline = example_pipeline ''PL1'' (Some ''F'') (Some clash_activities)"

text \<open>A pipeline without a folder and with an empty list of activities.\<close>

definition pipeline_without_folder :: resource where
  "pipeline_without_folder = example_pipeline ''PL2'' None (Some [])"

definition factory_without_folder :: arm_template where
  "factory_without_folder = \<lparr>resources = [pipeline_without_folder]\<rparr>"

text \<open>A pipeline without a folder that has one activity, and one without \<open>activities\<close>.\<close>

definition pipeline_with_activity :: resource where
  "pipeline_with_activity = example_pipeline ''PL3'' None (Some [example_activity ''A'' None])"

definition pipeline_without_activities :: resource where
  "pipeline_without_activities = example_pipeline ''PL4'' (Some ''F'') None"

text \<open>An activity whose timeout is the service default, in a pipeline of folder \<open>F\<close>.\<close>

definition seven_day_activity :: activity where
  "seven_day_activity =
     (example_activity ''Wait1'' None)
       \<lparr>a_policy := Some \<lparr>timeout = Some ''7.00:00:00''\<rparr>,
        a_typeProperties :=
          Some \<lparr>isSequential = None, batchCount = None, dataIntegrationUnits = None\<rparr>\<rparr>"

definition seven_day_pipeline :: resource where
  "seven_day_pipeline = example_pipeline ''PL5'' (Some ''F'') (Some [seven_day_activity])"

text \<open>A Copy activity with a timeout and without \<open>typeProperties\<close>.\<close>

definition copy_without_typeProperties :: activity where
  "copy_without_typeProperties =
     (example_activity ''Copy1'' None)
       \<lparr>a_type := Some ''Copy'', a_policy := Some \<lparr>timeout = Some ''0.12:00:00''\<rparr>\<rparr>"

definition copy_factory :: arm_template where
  "copy_factory =
     \<lparr>resources =
        [example_pipeline ''PL6'' (Some ''F'') (Some [copy_without_typeProperties])]\<rparr>"

text \<open>A \<open>ForEach\<close> activity without \<open>typeProperties\<close>.\<close>

definition foreach_without_typeProperties :: activity where
  "foreach_without_typeProperties = (example_activity ''Each1'' None)\<lparr>a_type := Some ''ForEach''\<rparr>"

text \<open>A factory whose only pipeline has no \<open>activities\<close>, and one with the seven-day activity.\<close>

definition factory_without_activities :: arm_template where
  "factory_without_activities = \<lparr>resources = [pipeline_without_activities]\<rparr>"

definition seven_day_factory :: arm_template where
  "seven_day_factory = \<lparr>resources = [seven_day_pipeline]\<rparr>"

section \<open>The Resource Identifier Parser\<close>

lemma str_rfind_bounds: "- 1 \<le> str_rfind c xs \<and> str_rfind c xs < int (length xs)"
  by (induction xs) (auto simp: Let_def)

lemma str_find_bounds: "- 1 \<le> str_find c xs \<and> str_find c xs < int (length xs)"
  by (induction xs) (auto simp: Let_def)

lemma str_find_absent: "c \<notin> set xs \<Longrightarrow> str_find c xs = - 1"
  by (induction xs) (auto simp: Let_def)

lemma str_rfind_absent: "c \<notin> set xs \<Longrightarrow> str_rfind c xs = - 1"
  by (induction xs) (auto simp: Let_def)

lemma str_find_first: "c \<notin> set pre \<Longrightarrow> str_find c (pre @ c # rest) = int (length pre)"
  by (induction pre) (auto simp: Let_def)

lemma str_rfind_last: "c \<notin> set post \<Longrightarrow> str_rfind c (pre @ c # post) = int (length pre)"
  by (induction pre) (auto simp: Let_def str_rfind_absent)

lemma slice_index_nat: "slice_index n (int k) = min n k"
  by (simp add: slice_index_def)

lemma slice_index_minus_one: "slice_index n (- 1) = n - 1"
  by (auto simp: slice_index_def)

lemma slice_index_le: "slice_index n i \<le> n"
  by (auto simp: slice_index_def)

lemma slice_index_less: "0 < n \<Longrightarrow> i < int n \<Longrightarrow> slice_index n i < n"
  by (auto simp: slice_index_def)

lemma length_py_slice: "length (py_slice xs lo hi) \<le> slice_index (length xs) hi"
  using slice_index_le [of "length xs" lo]
  by (simp add: py_slice_def Let_def)

lemma py_slice_nat:
  "py_slice xs (int l) (int h)
     = take (min (length xs) h - min (length xs) l) (drop (min (length xs) l) xs)"
  by (simp add: py_slice_def Let_def slice_index_nat)

text \<open>The upper bound of the slice lies before the end: a non-empty string gets shorter.\<close>

lemma clean_name_shorter:
  assumes "t \<noteq> []"
  shows "length (clean_name t) < length t"
proof -
  have "str_rfind (CHR 0x27) t < int (length t)"
    using str_rfind_bounds [of "CHR 0x27" t] by simp
  with assms have "slice_index (length t) (str_rfind (CHR 0x27) t) < length t"
    by (intro slice_index_less) auto
  moreover have "length (clean_name t) \<le> slice_index (length t) (str_rfind (CHR 0x27) t)"
    unfolding clean_name_def Let_def by (rule length_py_slice)
  ultimately show ?thesis by simp
qed

lemma clean_name_between:
  assumes "CHR ''/'' \<notin> set pre" and "CHR 0x27 \<notin> set post"
  shows "clean_name (pre @ CHR ''/'' # mid @ CHR 0x27 # post) = mid"
proof -
  let ?raw = "pre @ CHR ''/'' # mid @ CHR 0x27 # post"
  have f: "str_find CHR ''/'' ?raw + 1 = int (Suc (length pre))"
    using str_find_first [OF assms(1), of "mid @ CHR 0x27 # post"] by simp
  have "str_rfind (CHR 0x27) ((pre @ CHR ''/'' # mid) @ CHR 0x27 # post)
          = int (length (pre @ CHR ''/'' # mid))"
    using assms(2) by (rule str_rfind_last)
  then have r: "str_rfind (CHR 0x27) ?raw = int (Suc (length pre + length mid))"
    by simp
  have "clean_name ?raw
          = py_slice ?raw (int (Suc (length pre))) (int (Suc (length pre + length mid)))"
    unfolding clean_name_def Let_def f r ..
  also have "\<dots> = mid"
    unfolding py_slice_nat by simp
  finally show ?thesis .
qed

lemma clean_name_no_slash:
  assumes "CHR ''/'' \<notin> set mid" and "CHR ''/'' \<notin> set post" and "CHR 0x27 \<notin> set post"
  shows "clean_name (mid @ CHR 0x27 # post) = mid"
proof -
  let ?raw = "mid @ CHR 0x27 # post"
  have "str_find CHR ''/'' ?raw = - 1"
    using assms(1,2) by (intro str_find_absent) auto
  then have f: "str_find CHR ''/'' ?raw + 1 = int 0" by simp
  have r: "str_rfind (CHR 0x27) ?raw = int (length mid)"
    using assms(3) by (rule str_rfind_last)
  have "clean_name ?raw = py_slice ?raw (int 0) (int (length mid))"
    unfolding clean_name_def Let_def f r ..
  also have "\<dots> = mid"
    unfolding py_slice_nat by simp
  finally show ?thesis .
qed

lemma clean_name_no_quote:
  assumes "CHR 0x27 \<notin> set raw"
  shows "clean_name raw = butlast (drop (nat (str_find CHR ''/'' raw + 1)) raw)"
proof -
  have r: "str_rfind (CHR 0x27) raw = - 1"
    using assms by (rule str_rfind_absent)
  define k where "k = nat (str_find CHR ''/'' raw + 1)"
  have k: "str_find CHR ''/'' raw + 1 = int k" and kn: "k \<le> length raw"
    using str_find_bounds [of "CHR ''/''" raw] by (auto simp: k_def)
  have "clean_name raw = take (length raw - 1 - k) (drop k raw)"
    using kn
    by (simp add: clean_name_def Let_def r k py_slice_def slice_index_nat slice_index_minus_one)
  also have "\<dots> = butlast (drop k raw)"
    by (simp add: butlast_conv_take)
  finally show ?thesis by (simp add: k_def)
qed

text \<open>
  C6, as the code has it. \<open>clean_name\<close> returns a string for every string and raises
  nothing. Where the raw name has a slash and its final single quote lies after the
  first slash, the result is the text strictly between the two; where it has no slash
  at all, the text before the final quote. Where it has no single quote, nothing is
  reported: \<open>rfind\<close> gives \<open>-1\<close>, and the result is the text after the first slash (or
  from index \<open>0\<close>) without its last character.
\<close>

theorem clean_name_delimiters:
  "(CHR ''/'' \<notin> set pre \<and> CHR 0x27 \<notin> set post
      \<longrightarrow> clean_name (pre @ CHR ''/'' # mid @ CHR 0x27 # post) = mid)
   \<and> (CHR ''/'' \<notin> set mid \<and> CHR ''/'' \<notin> set post \<and> CHR 0x27 \<notin> set post
      \<longrightarrow> clean_name (mid @ CHR 0x27 # post) = mid)
   \<and> (CHR 0x27 \<notin> set raw
      \<longrightarrow> clean_name raw = butlast (drop (nat (str_find CHR ''/'' raw + 1)) raw))"
  using clean_name_between clean_name_no_slash clean_name_no_quote by blast

theorem clean_name_delimiters_witness:
  "clean_name ''[concat(parameters('factoryName'), '/PL1')]'' = ''PL1''
   \<and> clean_name ''PL1')]'' = ''PL1''
   \<and> clean_name ''factory/PL1'' = ''PL''"
  using clean_name_delimiters
    [where pre = "''[concat(parameters('factoryName'), '' @ [CHR 0x27]" and post = "'')]''"
       and mid = "''PL1''" and raw = "''factory/PL1''"]
  by (simp add: Let_def)

text \<open>
  The claim C6 at a raw name without a single quote: the parser returns the name
  without its last character.
\<close>

theorem clean_name_no_quote_counterexample:
  "CHR 0x27 \<notin> set ''factory/PL1'' \<and> clean_name ''factory/PL1'' = ''PL''"
  by (simp add: clean_name_def py_slice_def slice_index_def Let_def)

text \<open>
  C7, as the code has it. Applying \<open>clean_name\<close> to its own result returns that result
  only when the result is the empty string: on every other result the second
  application is strictly shorter.
\<close>

theorem clean_name_twice:
  "(clean_name (clean_name s) = clean_name s) = (clean_name s = [])"
proof
  assume eq: "clean_name (clean_name s) = clean_name s"
  show "clean_name s = []"
  proof (rule ccontr)
    assume "clean_name s \<noteq> []"
    from clean_name_shorter [OF this] eq show False by simp
  qed
next
  assume "clean_name s = []"
  then show "clean_name (clean_name s) = clean_name s"
    by (simp add: clean_name_def py_slice_def slice_index_def)
qed

text \<open>The claim C7 at the name expression of a pipeline.\<close>

theorem clean_name_idempotent_counterexample:
  "clean_name ''[concat(parameters('factoryName'), '/PL1')]'' = ''PL1''
   \<and> clean_name (clean_name ''[concat(parameters('factoryName'), '/PL1')]'') = ''PL''"
  by (simp add: clean_name_def py_slice_def slice_index_def Let_def)

section \<open>The orphan set\<close>

lemma set_append_unique: "set (append_unique x xs) = insert x (set xs)"
  by (auto simp: append_unique_def)

lemma append_unique_old: "x \<in> set xs \<Longrightarrow> append_unique x xs = xs"
  by (simp add: append_unique_def)

lemma append_unique_new: "x \<notin> set xs \<Longrightarrow> append_unique x xs = xs @ [x]"
  by (simp add: append_unique_def)

lemma set_fold_append_unique:
  "set (fold (\<lambda>d acc. append_unique (g d) acc) ds acc) = set acc \<union> g ` set ds"
  by (induction ds arbitrary: acc) (auto simp: set_append_unique)

lemma set_fold_append_unique_if:
  "set (fold (\<lambda>d acc. if P d then append_unique (g d) acc else acc) ds acc)
     = set acc \<union> g ` set (filter P ds)"
  by (induction ds arbitrary: acc) (auto simp: set_append_unique)

text \<open>The list a loop of \<open>append_unique\<close> builds holds every new element once, in order.\<close>

lemma fold_append_unique_first_occurrences:
  "fold (\<lambda>x acc. append_unique (f x) acc) xs acc
     = acc @ filter (\<lambda>y. y \<notin> set acc) (first_occurrences (map f xs))"
proof (induction xs arbitrary: acc)
  case Nil
  show ?case by simp
next
  case (Cons x xs)
  show ?case
  proof (cases "f x \<in> set acc")
    case True
    then have "filter (\<lambda>y. y \<notin> set acc) (filter (\<lambda>y. y \<noteq> f x) (first_occurrences (map f xs)))
                 = filter (\<lambda>y. y \<notin> set acc) (first_occurrences (map f xs))"
      by (auto intro: filter_cong)
    with True show ?thesis
      by (simp add: Cons.IH append_unique_old)
  next
    case False
    have "filter (\<lambda>y. y \<notin> set (acc @ [f x])) (first_occurrences (map f xs))
            = filter (\<lambda>y. y \<notin> set acc) (filter (\<lambda>y. y \<noteq> f x) (first_occurrences (map f xs)))"
      by (auto intro: filter_cong)
    with False show ?thesis
      by (simp add: Cons.IH append_unique_new)
  qed
qed

lemma set_first_occurrences: "set (first_occurrences xs) = set xs"
  by (induction xs) auto

lemma distinct_first_occurrences: "distinct (first_occurrences xs)"
  by (induction xs) (auto simp: set_first_occurrences)

lemma resources_list_declared:
  "fold (\<lambda>resource acc. append_unique (complete_resource resource) acc) (resources adf) []
     = declared adf"
  by (simp add: fold_append_unique_first_occurrences declared_def)

text \<open>Both branches of the second loop add the same targets.\<close>

lemma set_add_dependants:
  "set (add_dependants r acc) = set acc \<union> set (dependsOn_targets r)"
proof (cases "r_dependsOn r")
  case None
  then show ?thesis by (simp add: add_dependants_def dependsOn_targets_def)
next
  case (Some ds)
  show ?thesis
  proof (cases "length ds = 1")
    case True
    then obtain d where "ds = [d]" by (cases ds) auto
    with Some show ?thesis
      by (simp add: add_dependants_def dependsOn_targets_def set_append_unique)
  next
    case False
    with Some show ?thesis
      by (simp add: add_dependants_def dependsOn_targets_def set_fold_append_unique)
  qed
qed

lemma set_fold_add_dependants:
  "set (fold add_dependants rs acc) = set acc \<union> set (concat (map dependsOn_targets rs))"
  by (induction rs arbitrary: acc) (auto simp: set_add_dependants)

lemma set_add_trigger:
  "set (add_trigger t acc)
     = set acc \<union> (if has_dependencies t then {complete_resource t} else {})"
  by (cases "r_dependsOn t")
     (auto simp: add_trigger_def has_dependencies_def set_append_unique Suc_le_eq)

lemma set_fold_add_trigger:
  "set (fold add_trigger ts acc) = set acc \<union> wired_triggers ts"
  by (induction ts arbitrary: acc) (auto simp: set_add_trigger wired_triggers_def)

lemma dependants_list_referenced:
  "set (fold add_trigger triggers (fold add_dependants (resources adf) []))
     = referenced adf triggers"
  by (simp add: set_fold_add_trigger set_fold_add_dependants referenced_def)

lemma orphans_filter:
  "get_resource_dependants adf triggers
     = filter (\<lambda>i. i \<notin> referenced adf triggers) (declared adf)"
  unfolding get_resource_dependants_def Let_def resources_list_declared
    dependants_list_referenced ..

text \<open>
  C2. The orphan list is \<open>declared\<close> without the members of \<open>referenced\<close>, in declaration
  order and without repetition: \<open>declared\<close> holds the identifier of every top-level
  resource once, \<open>referenced\<close> the canonicalized targets of every \<open>dependsOn\<close> list and the
  own identifier of every Trigger with one or more \<open>dependsOn\<close> entries. The Triggers
  with an empty or absent \<open>dependsOn\<close> add nothing to \<open>referenced\<close>: the result is the
  same when only the Triggers with entries are passed.
\<close>

theorem orphans_declared_minus_referenced:
  "get_resource_dependants adf triggers
     = filter (\<lambda>i. i \<notin> referenced adf triggers) (declared adf)
   \<and> set (get_resource_dependants adf triggers)
       = set (map complete_resource (resources adf)) - referenced adf triggers
   \<and> distinct (get_resource_dependants adf triggers)
   \<and> get_resource_dependants adf triggers
       = get_resource_dependants adf (filter has_dependencies triggers)"
proof -
  have "set (declared adf) = set (map complete_resource (resources adf))"
    by (simp add: declared_def set_first_occurrences)
  then have s: "set (get_resource_dependants adf triggers)
       = set (map complete_resource (resources adf)) - referenced adf triggers"
    unfolding orphans_filter by auto
  have d: "distinct (get_resource_dependants adf triggers)"
    unfolding orphans_filter by (simp add: declared_def distinct_first_occurrences)
  have "referenced adf (filter has_dependencies triggers) = referenced adf triggers"
    by (simp add: referenced_def wired_triggers_def)
  then have w: "get_resource_dependants adf triggers
       = get_resource_dependants adf (filter has_dependencies triggers)"
    by (simp add: orphans_filter)
  from orphans_filter [of adf triggers] s d w show ?thesis by blast
qed

theorem orphans_declared_minus_referenced_witness:
  "get_resource_dependants wired_factory
     (of_type ''Microsoft.DataFactory/factories/triggers'' wired_factory)
     = [''datasets|DS2'', ''triggers|T2'']"
proof -
  let ?triggers = "of_type ''Microsoft.DataFactory/factories/triggers'' wired_factory"
  have "filter (\<lambda>i. i \<notin> referenced wired_factory ?triggers) (declared wired_factory)
          = [''datasets|DS2'', ''triggers|T2'']"
    by code_simp
  with orphans_declared_minus_referenced [of wired_factory ?triggers, THEN conjunct1]
  show ?thesis by (rule trans)
qed

section \<open>The Activity Chain Analyzer\<close>

lemma set_add_failure_dependencies:
  "set (add_failure_dependencies a acc) = set acc \<union> set (failed_targets a)"
  by (cases "a_dependsOn a")
     (auto simp: add_failure_dependencies_def failed_targets_def targets_with_def
        set_fold_append_unique_if)

lemma set_fold_add_failure_dependencies:
  "set (fold add_failure_dependencies acts acc)
     = set acc \<union> set (concat (map failed_targets acts))"
  by (induction acts arbitrary: acc) (auto simp: set_add_failure_dependencies)

lemma set_failure_dependencies: "set (failure_dependencies acts) = must_have_failed acts"
  by (simp add: failure_dependencies_def must_have_failed_def set_fold_add_failure_dependencies)

lemma set_add_success_dependencies:
  "set (add_success_dependencies a acc) = set acc \<union> set (succeeded_targets a)"
proof (cases "a_dependsOn a")
  case None
  then show ?thesis by (simp add: add_success_dependencies_def succeeded_targets_def)
next
  case (Some ds)
  show ?thesis
  proof (cases "ds = []")
    case True
    with Some show ?thesis
      by (simp add: add_success_dependencies_def succeeded_targets_def targets_with_def)
  next
    case False
    then have "length ds \<ge> 1" by (cases ds) auto
    with Some show ?thesis
      by (simp only: add_success_dependencies_def succeeded_targets_def targets_with_def
            set_fold_append_unique_if option.case if_True set_map)
  qed
qed

lemma set_fold_add_success_dependencies:
  "set (fold add_success_dependencies acts acc)
     = set acc \<union> set (concat (map succeeded_targets acts))"
  by (induction acts arbitrary: acc) (auto simp: set_add_success_dependencies)

lemma activities_named_all_named:
  "all_named acts \<Longrightarrow> activities_named n acts = Inr (filter (\<lambda>a. a_name a = Some n) acts)"
  by (induction acts) (auto simp: all_named_def)

lemma activities_named_unnamed:
  "\<not> all_named acts \<Longrightarrow> activities_named n acts = Inl KeyError"
  by (induction acts) (auto simp: all_named_def split: option.splits sum.splits)

text \<open>
  The second pass returns when every activity has a name, and then collects the
  \<open>Succeeded\<close> targets of the activities named in the list it runs over.
\<close>

lemma for_each_success_all_named:
  assumes "all_named acts"
  shows "\<exists>sl. for_each
       (\<lambda>activity_dependant acc.
          case activities_named activity_dependant acts of
            Inl e \<Rightarrow> Inl e
          | Inr found \<Rightarrow> Inr (fold add_success_dependencies found acc)) fl acc = Inr sl
       \<and> set sl = set acc \<union> must_have_succeeded acts (set fl)"
proof (induction fl arbitrary: acc)
  case Nil
  show ?case by (simp add: must_have_succeeded_def named_in_def split: option.splits)
next
  case (Cons n fl)
  let ?acc = "fold add_success_dependencies (filter (\<lambda>a. a_name a = Some n) acts) acc"
  obtain sl where sl: "for_each
       (\<lambda>activity_dependant acc.
          case activities_named activity_dependant acts of
            Inl e \<Rightarrow> Inl e
          | Inr found \<Rightarrow> Inr (fold add_success_dependencies found acc)) fl ?acc = Inr sl"
    and set_sl: "set sl = set ?acc \<union> must_have_succeeded acts (set fl)"
    using Cons.IH [of ?acc] by blast
  have "set ?acc \<union> must_have_succeeded acts (set fl)
          = set acc \<union> must_have_succeeded acts (set (n # fl))"
    by (auto simp: set_fold_add_success_dependencies must_have_succeeded_def named_in_def
          split: option.splits)
  with sl set_sl show ?case
    by (simp add: activities_named_all_named [OF assms])
qed

lemma success_dependencies_all_named:
  assumes "all_named acts"
  shows "\<exists>sl. success_dependencies acts fl = Inr sl
           \<and> set sl = must_have_succeeded acts (set fl)"
  using for_each_success_all_named [OF assms, of fl "[]"]
  by (simp add: success_dependencies_def)

text \<open>With an unnamed activity, the second pass raises as soon as it has a name to look for.\<close>

lemma success_dependencies_unnamed:
  assumes "\<not> all_named acts"
  shows "success_dependencies acts fl = (if fl = [] then Inr [] else Inl KeyError)"
  by (cases fl) (simp_all add: success_dependencies_def activities_named_unnamed [OF assms])

lemma pipeline_flagged_all_named:
  assumes "all_named acts"
  shows "pipeline_flagged acts = Inr (contradictions acts \<noteq> {})"
proof -
  obtain sl where sl: "success_dependencies acts (failure_dependencies acts) = Inr sl"
    and set_sl: "set sl = must_have_succeeded acts (must_have_failed acts)"
    using success_dependencies_all_named [OF assms, of "failure_dependencies acts"]
    by (auto simp: set_failure_dependencies)
  have "(filter (\<lambda>problem. problem \<in> set sl) (failure_dependencies acts) \<noteq> [])
          = (contradictions acts \<noteq> {})"
    by (auto simp: filter_empty_conv contradictions_def set_sl set_failure_dependencies [symmetric])
  with sl show ?thesis
    by (simp add: pipeline_flagged_def pipeline_problems_def Let_def)
qed

lemma pipeline_flagged_unnamed:
  assumes "\<not> all_named acts"
  shows "pipeline_flagged acts
           = (if must_have_failed acts = {} then Inr False else Inl KeyError)"
proof -
  have "(failure_dependencies acts = []) = (must_have_failed acts = {})"
    using set_failure_dependencies [of acts] by auto
  then show ?thesis
    by (simp add: pipeline_flagged_def pipeline_problems_def Let_def
          success_dependencies_unnamed [OF assms])
qed

lemma add_findings_Nil: "add_findings [] self = self"
  by (simp add: add_findings_def)

lemma add_findings_append: "add_findings gs (add_findings fs self) = add_findings (fs @ gs) self"
  by (simp add: add_findings_def)

lemma count_issue_add_findings: "count_issue f (c, self) = (c + 1, add_findings [f] self)"
  by (simp add: count_issue_def add_findings_def)

lemma record_issue_add_findings:
  "record_issue (Inr f) (c, self) = Inr (c + 1, add_findings [f] self)"
  by (simp add: record_issue_def add_findings_def)

lemma impossible_chain_body_analyzable:
  assumes "analyzable p"
  shows "impossible_chain_body p (c, self) =
           Inr (if contradictory p then (c + 1, add_findings [chain_finding p] self)
                else (c, self))"
proof -
  from assms obtain acts where acts: "activities (r_properties p) = Some acts"
    and "all_named acts"
    by (auto simp: analyzable_def split: option.splits)
  then have "pipeline_flagged acts = Inr (contradictions acts \<noteq> {})"
    by (simp add: pipeline_flagged_all_named)
  with acts show ?thesis
    by (simp add: impossible_chain_body_def Let_def contradictory_def chain_finding_def
          count_issue_add_findings)
qed

lemma for_each_impossible_chain_body:
  assumes "list_all analyzable ps"
  shows "for_each impossible_chain_body ps (c, self) =
           Inr (c + length (filter contradictory ps),
                add_findings (map chain_finding (filter contradictory ps)) self)"
  using assms
proof (induction ps arbitrary: c self)
  case Nil
  show ?case by (simp add: add_findings_Nil)
next
  case (Cons p ps)
  then have p: "analyzable p" and ps: "list_all analyzable ps" by simp_all
  show ?case
    by (simp add: impossible_chain_body_analyzable [OF p] Cons.IH [OF ps] add_findings_append)
qed

lemma chain_rule_result:
  assumes "list_all analyzable pipelines"
  shows "check_pipeline_impossible_execution_chain pipelines self =
     Inr (finish_check ''Pipeline(s) with an impossible AND/OR activity execution chain.'' High
            (length (filter contradictory pipelines),
             add_findings (map chain_finding (filter contradictory pipelines))
               (self\<lparr>check_number := check_number self + 1\<rparr>)))"
  by (simp add: check_pipeline_impossible_execution_chain_def start_check_def
        for_each_impossible_chain_body [OF assms])

text \<open>
  C3. For the activities of every pipeline the first pass collects \<open>mustHaveFailed\<close>.
  When all of them carry a name, the second pass returns and collects
  \<open>mustHaveSucceeded\<close> from the activities named in \<open>mustHaveFailed\<close>, and the pipeline is
  flagged exactly when the two sets meet; when one has no name, the lookup \<open>act['name']\<close>
  raises \<open>KeyError\<close> as soon as \<open>mustHaveFailed\<close> is not empty. Run over pipelines whose
  activities are all named, the rule counts each pipeline with a contradiction once,
  records one Finding of severity High for it when verbose, and appends one summary
  row of severity High.
\<close>

theorem impossible_chain_detector:
  "set (failure_dependencies acts) = must_have_failed acts
   \<and> (all_named acts \<longrightarrow>
        (\<exists>sl. success_dependencies acts (failure_dependencies acts) = Inr sl
               \<and> set sl = must_have_succeeded acts (must_have_failed acts))
        \<and> pipeline_flagged acts = Inr (contradictions acts \<noteq> {}))
   \<and> (\<not> all_named acts \<longrightarrow>
        pipeline_flagged acts
          = (if must_have_failed acts = {} then Inr False else Inl KeyError))
   \<and> (list_all analyzable pipelines \<longrightarrow>
      check_pipeline_impossible_execution_chain pipelines self =
        Inr (self\<lparr>check_number := check_number self + 1,
                 verbose_detail_table := verbose_detail_table self @
                   (if verbose self \<noteq> 0
                    then map chain_finding (filter contradictory pipelines) else []),
                 summary_table := summary_table self @
                   [\<lparr>IssueCount = length (filter contradictory pipelines),
                     SummaryCheckDetail =
                       ''Pipeline(s) with an impossible AND/OR activity execution chain.'',
                     SummarySeverity = High\<rparr>]\<rparr>))"
proof (intro conjI impI)
  show "set (failure_dependencies acts) = must_have_failed acts"
    by (rule set_failure_dependencies)
next
  assume "all_named acts"
  from success_dependencies_all_named [OF this, of "failure_dependencies acts"]
  show "\<exists>sl. success_dependencies acts (failure_dependencies acts) = Inr sl
               \<and> set sl = must_have_succeeded acts (must_have_failed acts)"
    by (simp add: set_failure_dependencies)
next
  assume "all_named acts"
  then show "pipeline_flagged acts = Inr (contradictions acts \<noteq> {})"
    by (rule pipeline_flagged_all_named)
next
  assume "\<not> all_named acts"
  then show "pipeline_flagged acts
               = (if must_have_failed acts = {} then Inr False else Inl KeyError)"
    by (rule pipeline_flagged_unnamed)
next
  assume "list_all analyzable pipelines"
  then show "check_pipeline_impossible_execution_chain pipelines self =
        Inr (self\<lparr>check_number := check_number self + 1,
                 verbose_detail_table := verbose_detail_table self @
                   (if verbose self \<noteq> 0
                    then map chain_finding (filter contradictory pipelines) else []),
                 summary_table := summary_table self @
                   [\<lparr>IssueCount = length (filter contradictory pipelines),
                     SummaryCheckDetail =
                       ''Pipeline(s) with an impossible AND/OR activity execution chain.'',
                     SummarySeverity = High\<rparr>]\<rparr>)"
    by (simp add: chain_rule_result finish_check_def add_findings_def)
qed

theorem impossible_chain_detector_witness:
  "all_named clash_activities
   \<and> list_all analyzable [clash_pipeline]
   \<and> set (failure_dependencies clash_activities) = {''B'', ''C''}
   \<and> must_have_succeeded clash_activities {''B'', ''C''} = {''C''}
   \<and> pipeline_flagged clash_activities = Inr True
   \<and> check_pipeline_impossible_execution_chain [clash_pipeline] (ADFLintChecker 1 False) =
       Inr \<lparr>check_number = 1,
            summary_table =
              [\<lparr>IssueCount = 1,
                SummaryCheckDetail =
                  ''Pipeline(s) with an impossible AND/OR activity execution chain.'',
                SummarySeverity = High\<rparr>],
            verbose_detail_table =
              [\<lparr>Component = ''Pipeline'', Name = ''PL1'',
                CheckDetail = ''Has an impossible AND/OR activity execution chain.'',
                Severity = High\<rparr>],
            verbose = 1, ignore_assertion = False\<rparr>"
proof -
  have n: "all_named clash_activities" by code_simp
  have a: "list_all analyzable [clash_pipeline]" by code_simp
  have f: "must_have_failed clash_activities = {''B'', ''C''}" by code_simp
  have s: "must_have_succeeded clash_activities {''B'', ''C''} = {''C''}" by code_simp
  have c: "contradictions clash_activities \<noteq> {}" by code_simp
  have k: "contradictory clash_pipeline" by code_simp
  have g: "chain_finding clash_pipeline =
             \<lparr>Component = ''Pipeline'', Name = ''PL1'',
              CheckDetail = ''Has an impossible AND/OR activity execution chain.'',
              Severity = High\<rparr>"
    by code_simp
  from impossible_chain_detector
         [of clash_activities "[clash_pipeline]" "ADFLintChecker 1 False"] n a
  show ?thesis
    by (simp add: f s c k g ADFLintChecker_def)
qed

lemma pipeline_flagged_set:
  assumes "set acts = set acts'"
  shows "pipeline_flagged acts = pipeline_flagged acts'"
proof -
  have n: "all_named acts = all_named acts'"
    using assms by (simp add: all_named_def list_all_iff)
  have f: "must_have_failed acts = must_have_failed acts'"
    using assms by (simp add: must_have_failed_def)
  have s: "must_have_succeeded acts F = must_have_succeeded acts' F" for F
    using assms by (simp add: must_have_succeeded_def)
  have c: "contradictions acts = contradictions acts'"
    by (simp add: contradictions_def f s)
  show ?thesis
  proof (cases "all_named acts")
    case True
    with n show ?thesis by (simp add: pipeline_flagged_all_named c)
  next
    case False
    with n show ?thesis by (simp add: pipeline_flagged_unnamed f)
  qed
qed

text \<open>
  C8. Swapping two activities in the list of a pipeline changes nothing in what the
  detector returns for it: the same verdict, or the same \<open>KeyError\<close> when an activity
  without a name is looked up.
\<close>

theorem flagged_invariant_under_swap:
  assumes "i < length acts" and "j < length acts"
  shows "pipeline_flagged (acts[i := acts ! j, j := acts ! i]) = pipeline_flagged acts"
  by (rule pipeline_flagged_set) (simp add: assms)

theorem flagged_invariant_under_swap_witness:
  "pipeline_flagged
     [example_activity ''C'' None,
      example_activity ''B''
        (Some [\<lparr>dep_activity = ''C'', dependencyConditions = [''Succeeded'']\<rparr>]),
      example_activity ''A''
        (Some [\<lparr>dep_activity = ''B'', dependencyConditions = [''Failed'']\<rparr>,
               \<lparr>dep_activity = ''C'', dependencyConditions = [''Failed'']\<rparr>])]
     = pipeline_flagged clash_activities
   \<and> pipeline_flagged clash_activities = Inr True"
proof -
  have "pipeline_flagged clash_activities = Inr True" by code_simp
  with flagged_invariant_under_swap [of 0 clash_activities 2]
  show ?thesis by (simp add: clash_activities_def)
qed

section \<open>What every rule does to the checker\<close>

lemma loop_step_refl: "loop_step cs cs"
  by (simp add: loop_step_def)

lemma loop_step_trans: "loop_step a b \<Longrightarrow> loop_step b c \<Longrightarrow> loop_step a c"
  by (simp add: loop_step_def)

lemma for_each_loop_step:
  assumes body: "\<And>x s s'. body x s = Inr s' \<Longrightarrow> loop_step s s'"
  shows "for_each body xs s = Inr s' \<Longrightarrow> loop_step s s'"
proof (induction xs arbitrary: s)
  case Nil
  then show ?case by (simp add: loop_step_refl)
next
  case (Cons x xs)
  from Cons.prems obtain s1 where s1: "body x s = Inr s1"
    and rest: "for_each body xs s1 = Inr s'"
    by (auto split: sum.splits)
  from body [OF s1] Cons.IH [OF rest] show ?case by (rule loop_step_trans)
qed

lemma fold_loop_step:
  assumes body: "\<And>x s. loop_step s (f x s)"
  shows "loop_step s (fold f xs s)"
proof (induction xs arbitrary: s)
  case Nil
  show ?case by (simp add: loop_step_refl)
next
  case (Cons x xs)
  from body [of s x] Cons.IH [of "f x s"] show ?case
    by (simp add: loop_step_trans)
qed

lemma count_issue_loop_step: "loop_step cs (count_issue f cs)"
  by (cases cs) (simp add: loop_step_def count_issue_def)

lemma record_issue_loop_step: "record_issue row cs = Inr cs' \<Longrightarrow> loop_step cs cs'"
  by (cases cs) (auto simp: loop_step_def record_issue_def split: if_splits sum.splits)

lemma finish_check_rule_step:
  "loop_step (start_check self) cs \<Longrightarrow> rule_step self (finish_check d sev cs)"
  by (cases cs)
     (simp add: loop_step_def rule_step_def steps_def start_check_def finish_check_def)

lemma check_orphans_rule_step:
  "check_orphans d sev cmp fd sel rr self = Inr self' \<Longrightarrow> rule_step self self'"
  unfolding check_orphans_def
  by (auto split: sum.splits intro!: finish_check_rule_step
        elim!: for_each_loop_step [rotated] dest: record_issue_loop_step simp: Let_def)

lemma check_resources_rule_step:
  "check_resources d sev cmp fd issue rs self = Inr self' \<Longrightarrow> rule_step self self'"
  unfolding check_resources_def
  by (auto intro!: finish_check_rule_step fold_loop_step
        simp: count_issue_loop_step loop_step_refl)

lemma impossible_chain_body_loop_step:
  "impossible_chain_body p cs = Inr cs' \<Longrightarrow> loop_step cs cs'"
  by (auto simp: impossible_chain_body_def Let_def count_issue_loop_step loop_step_refl
        split: option.splits sum.splits if_splits)

lemma check_pipeline_impossible_execution_chain_rule_step:
  "check_pipeline_impossible_execution_chain ps self = Inr self' \<Longrightarrow> rule_step self self'"
  unfolding check_pipeline_impossible_execution_chain_def
  by (auto split: sum.splits intro!: finish_check_rule_step
        elim!: for_each_loop_step [rotated] dest: impossible_chain_body_loop_step)

lemma activity_timeout_body_loop_step:
  "activity_timeout_body a cs = Inr cs' \<Longrightarrow> loop_step cs cs'"
  by (auto simp: activity_timeout_body_def loop_step_refl
        split: option.splits sum.splits if_splits dest: record_issue_loop_step)

lemma check_activity_timeout_values_rule_step:
  "check_activity_timeout_values xs self = Inr self' \<Longrightarrow> rule_step self self'"
  unfolding check_activity_timeout_values_def
  by (auto split: sum.splits intro!: finish_check_rule_step
        elim!: for_each_loop_step [rotated] dest: activity_timeout_body_loop_step)

lemma copy_activity_diu_body_loop_step:
  "copy_activity_diu_body a cs = Inr cs' \<Longrightarrow> loop_step cs cs'"
  by (auto simp: copy_activity_diu_body_def Let_def loop_step_refl count_issue_loop_step
        split: option.splits sum.splits if_splits prod.splits)

lemma check_copy_activity_diu_values_rule_step:
  "check_copy_activity_diu_values xs self = Inr self' \<Longrightarrow> rule_step self self'"
  unfolding check_copy_activity_diu_values_def
  by (auto split: sum.splits intro!: finish_check_rule_step
        elim!: for_each_loop_step [rotated] dest: copy_activity_diu_body_loop_step)

lemma activity_description_body_loop_step:
  "activity_description_body a cs = Inr cs' \<Longrightarrow> loop_step cs cs'"
  by (auto simp: activity_description_body_def loop_step_refl
        split: option.splits sum.splits if_splits dest: record_issue_loop_step)

lemma check_activity_description_rule_step:
  "check_activity_description xs self = Inr self' \<Longrightarrow> rule_step self self'"
  unfolding check_activity_description_def
  by (auto split: sum.splits intro!: finish_check_rule_step
        elim!: for_each_loop_step [rotated] dest: activity_description_body_loop_step)

lemma foreach_batch_size_unset_body_loop_step:
  "foreach_batch_size_unset_body a cs = Inr cs' \<Longrightarrow> loop_step cs cs'"
  by (auto simp: foreach_batch_size_unset_body_def Let_def loop_step_refl
        split: option.splits sum.splits if_splits dest: record_issue_loop_step)

lemma check_foreach_batch_size_unset_rule_step:
  "check_foreach_batch_size_unset xs self = Inr self' \<Longrightarrow> rule_step self self'"
  unfolding check_foreach_batch_size_unset_def
  by (auto split: sum.splits intro!: finish_check_rule_step
        elim!: for_each_loop_step [rotated] dest: foreach_batch_size_unset_body_loop_step)

lemma foreach_batch_size_lt_body_loop_step:
  "foreach_batch_size_lt_body a cs = Inr cs' \<Longrightarrow> loop_step cs cs'"
  by (auto simp: foreach_batch_size_lt_body_def Let_def loop_step_refl
        split: option.splits sum.splits if_splits dest: record_issue_loop_step)

lemma check_foreach_activity_batch_size_lt_service_maximum_rule_step:
  "check_foreach_activity_batch_size_lt_service_maximum xs self = Inr self'
     \<Longrightarrow> rule_step self self'"
  unfolding check_foreach_activity_batch_size_lt_service_maximum_def
  by (auto split: sum.splits intro!: finish_check_rule_step
        elim!: for_each_loop_step [rotated] dest: foreach_batch_size_lt_body_loop_step)

lemma check_linked_services_using_key_vault_rule_step:
  "check_linked_services_using_key_vault xs self = Inr self' \<Longrightarrow> rule_step self self'"
  unfolding check_linked_services_using_key_vault_def
  by (auto simp: rule_step_def steps_def start_check_def finish_check_def Let_def
        split: sum.splits prod.splits if_splits)

lemma run_checks_steps:
  assumes "\<And>r s s'. r \<in> set rs \<Longrightarrow> r s = Inr s' \<Longrightarrow> rule_step s s'"
  shows "run_checks rs self = Inr self' \<Longrightarrow> steps (length rs) self self'"
  using assms
proof (induction rs arbitrary: self)
  case Nil
  then show ?case by (simp add: run_checks_def steps_def)
next
  case (Cons r rs)
  from Cons.prems(1) obtain s1 where s1: "r self = Inr s1"
    and rest: "run_checks rs s1 = Inr self'"
    by (auto simp: run_checks_def split: sum.splits)
  have "rule_step self s1" using s1 by (intro Cons.prems(2) [of r]) auto
  moreover have "steps (length rs) s1 self'"
    using rest Cons.prems(2) by (intro Cons.IH) auto
  ultimately show ?case by (simp add: rule_step_def steps_def)
qed

lemma checks_of_rule_step:
  assumes "r \<in> set (checks_of ls ds ps acts dfs ts rr)" and "r s = Inr s'"
  shows "rule_step s s'"
proof -
  note orphans = check_master_pipeline_without_triggers_def check_orphaned_linked_services_def
    check_orphaned_dataset_def check_orphaned_triggers_def
  note fields = check_pipeline_descriptions_def check_pipelines_not_in_folder_def
    check_pipelines_without_annotation_def check_data_flow_descriptions_def
    check_linked_services_has_description_def check_linked_services_has_annotation_def
    check_datasets_without_description_def check_datasets_not_in_folder_def
    check_datasets_without_annotation_def check_triggers_has_description_def
    check_triggers_without_annotation_def
  from assms show ?thesis
    unfolding checks_of_def orphans fields
    by (auto dest: check_orphans_rule_step check_resources_rule_step
          check_pipeline_impossible_execution_chain_rule_step
          check_activity_timeout_values_rule_step check_copy_activity_diu_values_rule_step
          check_activity_description_rule_step check_foreach_batch_size_unset_rule_step
          check_foreach_activity_batch_size_lt_service_maximum_rule_step
          check_linked_services_using_key_vault_rule_step)
qed

lemma length_checks_of: "length (checks_of ls ds ps acts dfs ts rr) = 22"
  by (simp add: checks_of_def)

text \<open>A run that raised nothing ran all twenty-two rules and ended in the assertion.\<close>

lemma main_steps:
  assumes "main self adf = Inr (out, self')"
  shows "steps 22 self self' \<and> out = assert_adf_lint_free self'"
proof -
  from assms obtain rs where rs: "run_checks rs self = Inr self'"
    and len: "length rs = 22"
    and step: "\<And>r s s'. r \<in> set rs \<Longrightarrow> r s = Inr s' \<Longrightarrow> rule_step s s'"
    and out: "out = assert_adf_lint_free self'"
    unfolding main_def Let_def
    by (auto split: sum.splits intro: length_checks_of checks_of_rule_step)
  from run_checks_steps [OF step rs] len out show ?thesis by simp
qed

section \<open>The exit status\<close>

lemma exit_status_values: "exit_status out = 0 \<or> exit_status out = 1"
  by (cases out) auto

text \<open>
  C1, as the code has it. After a run that raised nothing, all twenty-two rules have
  run and left one summary row each. With the assertion enabled the exit status is
  non-zero exactly when the detail table holds more Findings than the summary table
  has rows, that is more than twenty-two; with the assertion suppressed \<open>main\<close> returns
  and the exit status is \<open>0\<close>.
\<close>

theorem exit_status_of_completed_run:
  assumes "main (ADFLintChecker v ignore) adf = Inr (out, self')"
  shows "check_number self' = 22 \<and> length (summary_table self') = 22
     \<and> (\<not> ignore \<longrightarrow>
          (exit_status out \<noteq> 0) = (length (verbose_detail_table self') > 22))
     \<and> (ignore \<longrightarrow> out = Returned \<and> exit_status out = 0)"
  using main_steps [OF assms]
  by (auto simp: steps_def ADFLintChecker_def assert_adf_lint_free_def)

theorem exit_status_of_completed_run_witness:
  "exit_of (main (ADFLintChecker 1 False) six_datasets) = Inr 1
   \<and> findings_of (main (ADFLintChecker 1 False) six_datasets) = Inr 24
   \<and> rules_run_of (main (ADFLintChecker 1 False) six_datasets) = Inr 22
   \<and> exit_of (main (ADFLintChecker 1 True) six_datasets) = Inr 0"
proof -
  let ?run = "main (ADFLintChecker 1 False) six_datasets"
  let ?ignored = "main (ADFLintChecker 1 True) six_datasets"
  have "\<not> isl ?run" by code_simp
  then obtain out self' where m: "?run = Inr (out, self')"
    by (cases ?run) auto
  have n: "findings_of ?run = Inr 24" by code_simp
  have "\<not> isl ?ignored" by code_simp
  then obtain out2 self2 where m2: "?ignored = Inr (out2, self2)"
    by (cases ?ignored) auto
  from exit_status_of_completed_run [OF m] n
  have "exit_of ?run = Inr 1 \<and> rules_run_of ?run = Inr 22"
    using exit_status_values [of out]
    by (auto simp: m exit_of_def findings_of_def rules_run_of_def)
  moreover from exit_status_of_completed_run [OF m2] have "exit_of ?ignored = Inr 0"
    by (simp add: m2 exit_of_def)
  ultimately show ?thesis using n by simp
qed

text \<open>
  The claim C1 at a factory with a single dataset, verbose and with the assertion
  enabled: four Findings were recorded, twenty-two rules ran, and the exit status is \<open>0\<close>.
\<close>

theorem exit_status_counterexample:
  "exit_of (main (ADFLintChecker 1 False) dataset_only) = Inr 0
   \<and> findings_of (main (ADFLintChecker 1 False) dataset_only) = Inr 4
   \<and> rules_run_of (main (ADFLintChecker 1 False) dataset_only) = Inr 22"
  by code_simp

text \<open>
  C9, as the code has it. With verbose output disabled and the assertion enabled, a run
  that raised nothing recorded no Finding, called \<open>sys.exit(False)\<close> and so ended with
  exit status \<open>0\<close>, whatever the rules counted. For every template, the exit status of
  the process is \<open>0\<close> when the run raised nothing and \<open>1\<close> when it raised: the issues
  the rules count never make it non-zero, an exception does.
\<close>

theorem quiet_run_exits_zero:
  "(main (ADFLintChecker 0 False) adf = Inr (out, self')
      \<longrightarrow> verbose_detail_table self' = [] \<and> out = SysExit False \<and> exit_status out = 0)
   \<and> process_exit_status (main (ADFLintChecker 0 False) adf)
       = (if isl (main (ADFLintChecker 0 False) adf) then 1 else 0)"
proof (intro conjI impI)
  assume m: "main (ADFLintChecker 0 False) adf = Inr (out, self')"
  from main_steps [OF m] show "verbose_detail_table self' = []"
    by (simp add: steps_def ADFLintChecker_def)
  from main_steps [OF m] show "out = SysExit False"
    by (simp add: steps_def ADFLintChecker_def assert_adf_lint_free_def)
  then show "exit_status out = 0" by simp
next
  show "process_exit_status (main (ADFLintChecker 0 False) adf)
          = (if isl (main (ADFLintChecker 0 False) adf) then 1 else 0)"
  proof (cases "main (ADFLintChecker 0 False) adf")
    case (Inl e)
    then show ?thesis by (simp add: process_exit_status_def)
  next
    case (Inr r)
    obtain out self' where r: "r = (out, self')" by (cases r)
    from main_steps [of "ADFLintChecker 0 False" adf out self'] Inr r
    have "out = SysExit False"
      by (simp add: steps_def ADFLintChecker_def assert_adf_lint_free_def)
    with Inr r show ?thesis by (simp add: process_exit_status_def)
  qed
qed

theorem quiet_run_exits_zero_witness:
  "exit_of (main (ADFLintChecker 0 False) six_datasets) = Inr 0
   \<and> findings_of (main (ADFLintChecker 0 False) six_datasets) = Inr 0
   \<and> issues_of (main (ADFLintChecker 0 False) six_datasets) = Inr 24
   \<and> process_exit_status (main (ADFLintChecker 0 False) six_datasets) = 0"
proof -
  let ?run = "main (ADFLintChecker 0 False) six_datasets"
  have n: "\<not> isl ?run" by code_simp
  then obtain out self' where m: "?run = Inr (out, self')"
    by (cases ?run) auto
  have "issues_of ?run = Inr 24" by code_simp
  with quiet_run_exits_zero [of six_datasets out self'] n show ?thesis
    by (auto simp: m exit_of_def findings_of_def)
qed

text \<open>
  The claim C9 at two templates, quiet and with the assertion enabled. A pipeline
  without \<open>activities\<close> makes the slicing raise \<open>KeyError\<close>; a pipeline of folder \<open>F\<close> with
  one activity makes the rule on activity descriptions raise \<open>AttributeError\<close>, as it
  calls \<open>get\<close> on a tuple. Either run ends with exit status \<open>1\<close>.
\<close>

theorem quiet_run_counterexample:
  "main (ADFLintChecker 0 False) factory_without_activities = Inl KeyError
   \<and> process_exit_status (main (ADFLintChecker 0 False) factory_without_activities) = 1
   \<and> main (ADFLintChecker 0 False) seven_day_factory = Inl AttributeError
   \<and> process_exit_status (main (ADFLintChecker 0 False) seven_day_factory) = 1"
  by code_simp

section \<open>Slicing the template\<close>

lemma for_each_folder_ok:
  "for_each (\<lambda>a acc. Inr (acc @ [(n, a)])) acts acc = Inr (acc @ map (Pair n) acts)"
  by (induction acts arbitrary: acc) simp_all

text \<open>What the slicing of one pipeline returns.\<close>

lemma pipeline_activities_result:
  "pipeline_activities p =
     (if unsliceable p then Inl KeyError
      else Inr (map (Pair (case folder (r_properties p) of
                             None \<Rightarrow> []
                           | Some f \<Rightarrow> (case fld_name f of None \<Rightarrow> [] | Some n \<Rightarrow> n)))
                  (case activities (r_properties p) of None \<Rightarrow> [] | Some acts \<Rightarrow> acts)))"
proof (cases "activities (r_properties p)")
  case None
  then show ?thesis by (simp add: pipeline_activities_def unsliceable_def)
next
  case (Some acts)
  show ?thesis
  proof (cases "lacks_folder_name p")
    case True
    with Some show ?thesis
      by (cases acts)
         (auto simp: pipeline_activities_def unsliceable_def lacks_folder_name_def
            split: option.splits)
  next
    case False
    then obtain f n where "folder (r_properties p) = Some f" and "fld_name f = Some n"
      by (auto simp: lacks_folder_name_def split: option.splits)
    with Some False show ?thesis
      by (simp add: pipeline_activities_def unsliceable_def for_each_folder_ok)
  qed
qed

lemma for_each_slice_fails:
  "list_ex unsliceable ps \<Longrightarrow>
   for_each (\<lambda>pipeline acc. case pipeline_activities pipeline of
            Inl e \<Rightarrow> Inl e
          | Inr xs \<Rightarrow> Inr (acc @ xs)) ps acc = Inl KeyError"
  by (induction ps arbitrary: acc) (auto simp: pipeline_activities_result)

lemma for_each_slice_ok:
  "\<not> list_ex unsliceable ps \<Longrightarrow>
   \<exists>xs. for_each (\<lambda>pipeline acc. case pipeline_activities pipeline of
            Inl e \<Rightarrow> Inl e
          | Inr xs \<Rightarrow> Inr (acc @ xs)) ps acc = Inr xs"
  by (induction ps arbitrary: acc) (auto simp: pipeline_activities_result)

lemma slice_activities_fails:
  "list_ex unsliceable ps \<Longrightarrow> slice_activities ps = Inl KeyError"
  using for_each_slice_fails [of ps "[]"] by (simp add: slice_activities_def)

lemma slice_activities_ok:
  "\<not> list_ex unsliceable ps \<Longrightarrow> \<exists>xs. slice_activities ps = Inr xs"
  using for_each_slice_ok [of ps "[]"] by (simp add: slice_activities_def)

lemma main_slice_fails:
  assumes "list_ex unsliceable (of_type ''Microsoft.DataFactory/factories/pipelines'' adf)"
  shows "main self adf = Inl KeyError"
  using slice_activities_fails [OF assms]
  by (simp add: main_def Let_def)

lemma reported_after_slicing:
  assumes "\<not> unsliceable p" and "no_folder p"
  shows "activities (r_properties p) = Some []
         \<or> (\<exists>f. folder (r_properties p) = Some f \<and> fld_name f = Some [])"
  using assms
  by (auto simp: unsliceable_def no_folder_def not_str_def lacks_folder_name_def
        split: option.splits)

text \<open>
  C10, as the code has it. The slicing raises \<open>KeyError\<close> exactly when some pipeline has
  no \<open>activities\<close> list, or has at least one activity and no \<open>folder.name\<close>; the run then
  ends with that error whatever the state of the checker, before any rule. A pipeline
  with an empty list of activities is sliced without a look at its folder. So a
  pipeline that reaches the rule stage and that the pipelines-not-in-folder rule
  reports has an empty list of activities, or a folder whose name is the empty string.
\<close>

theorem slicing_raises_on_missing_keys:
  "(list_ex unsliceable pipelines \<longrightarrow> slice_activities pipelines = Inl KeyError)
   \<and> (\<not> list_ex unsliceable pipelines \<longrightarrow> (\<exists>acts. slice_activities pipelines = Inr acts))
   \<and> (list_ex unsliceable (of_type ''Microsoft.DataFactory/factories/pipelines'' adf)
        \<longrightarrow> main self adf = Inl KeyError)
   \<and> (\<not> unsliceable p \<and> no_folder p
        \<longrightarrow> activities (r_properties p) = Some []
            \<or> (\<exists>f. folder (r_properties p) = Some f \<and> fld_name f = Some []))"
  using slice_activities_fails slice_activities_ok main_slice_fails reported_after_slicing
  by blast

theorem slicing_raises_on_missing_keys_witness:
  "slice_activities [pipeline_with_activity] = Inl KeyError
   \<and> main (ADFLintChecker 1 False) \<lparr>resources = [pipeline_with_activity]\<rparr> = Inl KeyError
   \<and> slice_activities [pipeline_without_activities] = Inl KeyError
   \<and> (\<exists>acts. slice_activities [pipeline_without_folder] = Inr acts)
   \<and> activities (r_properties pipeline_without_folder) = Some []"
proof -
  have u1: "list_ex unsliceable [pipeline_with_activity]" by code_simp
  have u2: "list_ex unsliceable
              (of_type ''Microsoft.DataFactory/factories/pipelines''
                 \<lparr>resources = [pipeline_with_activity]\<rparr>)"
    by code_simp
  have u3: "list_ex unsliceable [pipeline_without_activities]" by code_simp
  have u4: "\<not> list_ex unsliceable [pipeline_without_folder]" by code_simp
  have u5: "\<not> unsliceable pipeline_without_folder \<and> no_folder pipeline_without_folder"
    by code_simp
  have u6: "folder (r_properties pipeline_without_folder) = None" by code_simp
  from slicing_raises_on_missing_keys
         [of "[pipeline_with_activity]" "\<lparr>resources = [pipeline_with_activity]\<rparr>"
            "ADFLintChecker 1 False" pipeline_without_folder]
       slicing_raises_on_missing_keys
         [of "[pipeline_without_activities]" "\<lparr>resources = []\<rparr>"
            "ADFLintChecker 1 False" pipeline_without_folder]
       slicing_raises_on_missing_keys
         [of "[pipeline_without_folder]" "\<lparr>resources = []\<rparr>"
            "ADFLintChecker 1 False" pipeline_without_folder]
       u1 u2 u3 u4 u5 u6
  show ?thesis by simp
qed

text \<open>
  The claim C10 at a factory whose only pipeline has no folder and an empty list of
  activities: the run raises nothing, and the fourth rule, on pipelines that are not
  in a folder, reports one issue.
\<close>

theorem folder_rule_counterexample:
  "folder (r_properties pipeline_without_folder) = None
   \<and> exit_of (main (ADFLintChecker 1 False) factory_without_folder) = Inr 0
   \<and> summary_row_of 3 (main (ADFLintChecker 1 False) factory_without_folder) =
       Inr \<lparr>IssueCount = 1,
            SummaryCheckDetail = ''Pipeline(s) not organised into folders.'',
            SummarySeverity = Low\<rparr>"
  by code_simp

section \<open>Rules that read a missing field\<close>

lemma copy_activity_diu_body_error:
  "copy_activity_diu_body fa cs = Inl e \<Longrightarrow> e = KeyError"
  by (auto simp: copy_activity_diu_body_def Let_def split: prod.splits option.splits if_splits)

lemma copy_activity_diu_body_unreadable:
  "diu_unreadable fa \<Longrightarrow> copy_activity_diu_body fa cs = Inl KeyError"
  by (auto simp: copy_activity_diu_body_def diu_unreadable_def has_timeout_def
        split: prod.splits option.splits)

lemma for_each_diu_unreadable:
  "list_ex diu_unreadable acts \<Longrightarrow> for_each copy_activity_diu_body acts cs = Inl KeyError"
proof (induction acts arbitrary: cs)
  case Nil
  then show ?case by simp
next
  case (Cons fa acts)
  show ?case
  proof (cases "copy_activity_diu_body fa cs")
    case (Inl e)
    then show ?thesis by (simp add: copy_activity_diu_body_error [OF Inl])
  next
    case (Inr cs')
    with Cons.prems have "list_ex diu_unreadable acts"
      by (auto simp: copy_activity_diu_body_unreadable)
    with Inr show ?thesis by (simp add: Cons.IH)
  qed
qed

lemma diu_rule_unreadable:
  "list_ex diu_unreadable acts \<Longrightarrow> check_copy_activity_diu_values acts self = Inl KeyError"
  by (simp add: check_copy_activity_diu_values_def for_each_diu_unreadable)

text \<open>A rule that raises in every state ends every run it is part of.\<close>

lemma run_checks_raises:
  assumes "r \<in> set rs" and "\<And>s. isl (r s)"
  shows "isl (run_checks rs self)"
  using assms(1)
proof (induction rs arbitrary: self)
  case Nil
  then show ?case by simp
next
  case (Cons q rs)
  show ?case
  proof (cases "q self")
    case (Inl e)
    then show ?thesis by (simp add: run_checks_def)
  next
    case (Inr s1)
    show ?thesis
    proof (cases "r = q")
      case True
      with assms(2) [of self] Inr show ?thesis by simp
    next
      case False
      with Cons.prems have "r \<in> set rs" by simp
      from Cons.IH [OF this, of s1] Inr show ?thesis by (simp add: run_checks_def)
    qed
  qed
qed

lemma main_diu_unreadable:
  assumes "slice_activities (of_type ''Microsoft.DataFactory/factories/pipelines'' adf) = Inr acts"
    and "list_ex diu_unreadable acts"
  shows "isl (main self adf)"
proof -
  let ?triggers = "of_type ''Microsoft.DataFactory/factories/triggers'' adf"
  let ?rs = "checks_of (of_type ''Microsoft.DataFactory/factories/linkedServices'' adf)
               (of_type ''Microsoft.DataFactory/factories/datasets'' adf)
               (of_type ''Microsoft.DataFactory/factories/pipelines'' adf) acts
               (of_type ''Microsoft.DataFactory/factories/dataflows'' adf) ?triggers
               (get_resource_dependants adf ?triggers)"
  have "isl (run_checks ?rs self)"
    by (rule run_checks_raises [where r = "check_copy_activity_diu_values acts"])
       (simp_all add: checks_of_def diu_rule_unreadable [OF assms(2)])
  then obtain e where "run_checks ?rs self = Inl e"
    by (cases "run_checks ?rs self") auto
  then show ?thesis
    by (simp add: main_def Let_def assms(1))
qed

lemma foreach_activities_dicts:
  "foreach_activities (map Dict ds)
     = Inr (map Dict (filter (\<lambda>a. a_type a = Some ''ForEach'') ds))"
  by (induction ds) simp_all

lemma foreach_batch_size_unset_body_dict_error:
  "foreach_batch_size_unset_body (Dict a) cs = Inl e \<Longrightarrow> e = KeyError"
  by (cases cs)
     (auto simp: foreach_batch_size_unset_body_def Let_def activity_row_def record_issue_def
        split: option.splits if_splits)

lemma for_each_foreach_unreadable:
  "list_ex (\<lambda>a. a_typeProperties a = None) ds \<Longrightarrow>
   for_each foreach_batch_size_unset_body (map Dict ds) cs = Inl KeyError"
proof (induction ds arbitrary: cs)
  case Nil
  then show ?case by simp
next
  case (Cons a ds)
  show ?case
  proof (cases "foreach_batch_size_unset_body (Dict a) cs")
    case (Inl e)
    then show ?thesis by (simp add: foreach_batch_size_unset_body_dict_error [OF Inl])
  next
    case (Inr cs')
    with Cons.prems have "list_ex (\<lambda>a. a_typeProperties a = None) ds"
      by (auto simp: foreach_batch_size_unset_body_def)
    with Inr show ?thesis by (simp add: Cons.IH)
  qed
qed

lemma foreach_rule_unreadable:
  assumes "list_ex foreach_unreadable ds"
  shows "check_foreach_batch_size_unset (map Dict ds) self = Inl KeyError"
proof -
  from assms have "list_ex (\<lambda>a. a_typeProperties a = None)
                     (filter (\<lambda>a. a_type a = Some ''ForEach'') ds)"
    by (auto simp: list_ex_iff foreach_unreadable_def)
  then show ?thesis
    by (simp add: check_foreach_batch_size_unset_def foreach_activities_dicts
          for_each_foreach_unreadable)
qed

text \<open>
  C5, as the code has it. A rule that reads a missing field by subscript raises
  \<open>KeyError\<close>, and nothing catches it. The DIU rule raises on a list of activities that
  holds one with a \<open>policy.timeout\<close> and without \<open>typeProperties\<close>, and a run whose
  slicing returned such a list ends with an exception instead of a report. The rule on
  the batch count of \<open>ForEach\<close> activities raises in the same way on a list of activity
  dicts that holds a \<open>ForEach\<close> activity without \<open>typeProperties\<close>.
\<close>

theorem missing_field_aborts_run:
  "(list_ex diu_unreadable acts \<longrightarrow> check_copy_activity_diu_values acts self = Inl KeyError)
   \<and> (slice_activities (of_type ''Microsoft.DataFactory/factories/pipelines'' adf) = Inr acts
        \<and> list_ex diu_unreadable acts
        \<longrightarrow> isl (main self adf))
   \<and> (list_ex foreach_unreadable ds
        \<longrightarrow> check_foreach_batch_size_unset (map Dict ds) self = Inl KeyError)"
  using diu_rule_unreadable main_diu_unreadable foreach_rule_unreadable by blast

theorem missing_field_aborts_run_witness:
  "check_copy_activity_diu_values [(''F'', copy_without_typeProperties)]
     (ADFLintChecker 1 False) = Inl KeyError
   \<and> isl (main (ADFLintChecker 1 False) copy_factory)
   \<and> check_foreach_batch_size_unset [Dict foreach_without_typeProperties]
       (ADFLintChecker 1 False) = Inl KeyError"
proof -
  have s: "slice_activities (of_type ''Microsoft.DataFactory/factories/pipelines'' copy_factory)
             = Inr [(''F'', copy_without_typeProperties)]"
    by code_simp
  have u: "list_ex diu_unreadable [(''F'', copy_without_typeProperties)]" by code_simp
  have f: "list_ex foreach_unreadable [foreach_without_typeProperties]" by code_simp
  from missing_field_aborts_run
         [of "[(''F'', copy_without_typeProperties)]" "ADFLintChecker 1 False" copy_factory
            "[foreach_without_typeProperties]"] s u f
  show ?thesis by simp
qed

text \<open>
  The claim C5 at a factory whose pipeline holds a Copy activity with a timeout and
  without \<open>typeProperties\<close>: the DIU rule raises \<open>KeyError\<close>, and so does the run.
\<close>

theorem missing_field_counterexample:
  "a_typeProperties copy_without_typeProperties = None
   \<and> check_copy_activity_diu_values [(''F'', copy_without_typeProperties)]
       (ADFLintChecker 1 False) = Inl KeyError
   \<and> main (ADFLintChecker 1 False) copy_factory = Inl KeyError"
  by code_simp

section \<open>The timeout rule\<close>

text \<open>
  On the tuples of \<open>main\<close> the timeout rule never counts: \<open>'policy' in activity\<close> asks
  whether the folder is named \<open>policy\<close>, and then the subscript raises.
\<close>

lemma for_each_timeout_tuples:
  "for_each activity_timeout_body (as_items acts) cs =
     (if list_ex (\<lambda>fa. fst fa = ''policy'') acts then Inl TypeError else Inr cs)"
  by (induction acts) (auto simp: as_items_def activity_timeout_body_def)

lemma timeout_rule_on_tuples:
  "check_activity_timeout_values (as_items acts) self =
     (if list_ex (\<lambda>fa. fst fa = ''policy'') acts then Inl TypeError
      else Inr (finish_check
                 ''Activities with timeout values still set to the service default value of 7 days.''
                 High (0, self\<lparr>check_number := check_number self + 1\<rparr>)))"
  by (simp add: check_activity_timeout_values_def for_each_timeout_tuples start_check_def)

text \<open>On the activity dicts themselves the rule counts the activities with the default.\<close>

lemma activity_timeout_body_dict:
  "activity_timeout_body (Dict a) (c, self) =
     Inr (if has_default_timeout a then (c + 1, add_findings [timeout_finding a] self)
          else (c, self))"
  by (auto simp: activity_timeout_body_def has_default_timeout_def timeout_finding_def
        activity_row_def record_issue_add_findings split: option.splits)

lemma for_each_timeout_dicts:
  "for_each activity_timeout_body (map Dict ds) (c, self) =
     Inr (c + length (filter has_default_timeout ds),
          add_findings (map timeout_finding (filter has_default_timeout ds)) self)"
  by (induction ds arbitrary: c self)
     (simp_all add: activity_timeout_body_dict add_findings_Nil add_findings_append)

lemma timeout_rule_on_dicts:
  "check_activity_timeout_values (map Dict ds) self =
     Inr (finish_check
            ''Activities with timeout values still set to the service default value of 7 days.''
            High
            (length (filter has_default_timeout ds),
             add_findings (map timeout_finding (filter has_default_timeout ds))
               (self\<lparr>check_number := check_number self + 1\<rparr>)))"
  by (simp add: check_activity_timeout_values_def for_each_timeout_dicts start_check_def)

text \<open>
  C4 at a pipeline of folder \<open>F\<close> with one activity whose timeout is \<open>7.00:00:00\<close>. The
  rule, run on the tuples \<open>main\<close> builds, reports no issue; run on the activity dict it
  reports one.
\<close>

theorem timeout_rule_counts_nothing:
  "slice_activities [seven_day_pipeline] = Inr [(''F'', seven_day_activity)]
   \<and> has_default_timeout seven_day_activity
   \<and> check_activity_timeout_values (as_items [(''F'', seven_day_activity)])
       (ADFLintChecker 1 False) =
       Inr \<lparr>check_number = 1,
            summary_table =
              [\<lparr>IssueCount = 0,
                SummaryCheckDetail =
                  ''Activities with timeout values still set to the service default value of 7 days.'',
                SummarySeverity = High\<rparr>],
            verbose_detail_table = [], verbose = 1, ignore_assertion = False\<rparr>
   \<and> check_activity_timeout_values [Dict seven_day_activity] (ADFLintChecker 1 False) =
       Inr \<lparr>check_number = 1,
            summary_table =
              [\<lparr>IssueCount = 1,
                SummaryCheckDetail =
                  ''Activities with timeout values still set to the service default value of 7 days.'',
                SummarySeverity = High\<rparr>],
            verbose_detail_table =
              [\<lparr>Component = ''Activity'', Name = ''Wait1'',
                CheckDetail =
                  ''Timeout policy still set to the service default value of 7 days.'',
                Severity = High\<rparr>],
            verbose = 1, ignore_assertion = False\<rparr>"
  by code_simp

end
